theory Spec2Isabelle
  imports Main
begin

section \<open>The plugin manager of foxblat (src/foxblat/plugin\_manager.py)\<close>

text \<open>
  Exceptions are values. \<open>ValueError\<close> is what \<open>int(s, 16)\<close> and \<open>list.remove\<close>
  raise, \<open>ReError\<close> is \<open>re.error\<close>, \<open>TypeError\<close> is what \<open>issubclass\<close>, \<open>hasattr\<close>,
  \<open>in\<close> and indexing raise on an operand of the wrong type, \<open>KeyError\<close> is what
  indexing a dictionary raises on a missing key, \<open>UnicodeDecodeError\<close> is
  what reading a text file raises on bytes that are not UTF-8, and \<open>PluginError\<close>
  stands for any exception (a subclass of \<open>Exception\<close>) raised by plugin code.
\<close>

datatype error = ValueError | ReError | TypeError | KeyError | UnicodeDecodeError | PluginError

subsection \<open>Devices and rules\<close>

text \<open>
  An \<open>evdev.InputDevice\<close> as far as the manager reads it: \<open>device.name\<close>,
  \<open>device.info.vendor\<close>, \<open>device.info.product\<close> and \<open>device.path\<close>.
\<close>

record input_device =
  dev_name :: string
  dev_vendor :: int
  dev_product :: int
  dev_path :: string

text \<open>
  A rule is one object of the \<open>devices\<close> list of plugin.json. The value of
  \<open>vendor_id\<close> and of \<open>product_id\<close> is an integer or a string; \<open>rule.get\<close> gives
  \<open>None\<close> for an absent key.
\<close>

datatype id_value = IntV int | StrV string

record rule =
  vendor_id :: "id_value option"
  product_id :: "id_value option"
  name_pattern :: "string option"

subsection \<open>Python's \<open>int(s, 16)\<close>\<close>

text \<open>
  The library function the matcher calls on a string value. A character is its code
  point, below 256. White space is stripped at both ends: the codes 9 to 13 and 32,
  and the two further white space characters below 256, 133 and 160 (the codes 28 to
  31 are not stripped). Then come an optional sign, an optional prefix \<open>0x\<close> or \<open>0X\<close>
  (which one underscore may follow) and hexadecimal digits, where single underscores
  may stand between digits. Anything else raises ValueError, here \<open>None\<close>.
\<close>

definition is_py_space :: "char \<Rightarrow> bool" where
  "is_py_space c = ((of_char c :: int) \<in> {9, 10, 11, 12, 13, 32, 133, 160})"

definition hex_digit :: "char \<Rightarrow> int option" where
  "hex_digit c =
     (let n = (of_char c :: int) in
      if 48 \<le> n \<and> n \<le> 57 then Some (n - 48)
      else if 97 \<le> n \<and> n \<le> 102 then Some (n - 87)
      else if 65 \<le> n \<and> n \<le> 70 then Some (n - 55)
      else None)"

fun hex_digits :: "int \<Rightarrow> bool \<Rightarrow> string \<Rightarrow> int option" where
  "hex_digits acc us [] = (if us then None else Some acc)"
| "hex_digits acc us (c # cs) =
     (if c = CHR ''_'' then (if us then None else hex_digits acc True cs)
      else case hex_digit c of
             None \<Rightarrow> None
           | Some d \<Rightarrow> hex_digits (16 * acc + d) False cs)"

definition py_strip :: "string \<Rightarrow> string" where
  "py_strip s = rev (dropWhile is_py_space (rev (dropWhile is_py_space s)))"

definition split_sign :: "string \<Rightarrow> bool \<times> string" where
  "split_sign t =
     (case t of
        [] \<Rightarrow> (False, t)
      | c # r \<Rightarrow> if c = CHR ''-'' then (True, r)
                 else if c = CHR ''+'' then (False, r)
                 else (False, t))"

definition skip_prefix16 :: "string \<Rightarrow> string" where
  "skip_prefix16 u =
     (case u of
        a # b # r \<Rightarrow>
          if a = CHR ''0'' \<and> (b = CHR ''x'' \<or> b = CHR ''X'')
          then (case r of k # r' \<Rightarrow> if k = CHR ''_'' then r' else r | [] \<Rightarrow> r)
          else u
      | _ \<Rightarrow> u)"

definition int_base16 :: "string \<Rightarrow> int option" where
  "int_base16 s =
     (let (neg, u) = split_sign (py_strip s);
          v = skip_prefix16 u
      in case v of
           [] \<Rightarrow> None
         | c # _ \<Rightarrow>
             if c = CHR ''_'' then None
             else map_option (\<lambda>n. if neg then - n else n) (hex_digits 0 False v))"

subsection \<open>PluginMatcher.matches\<close>

text \<open>
  \<open>re.search\<close> is a function of Python's library, so the matcher takes it as a
  parameter: \<open>search pattern string flags\<close> is \<open>Inr True\<close> when
  \<open>re.search(pattern, string, flags)\<close> returns a match object, \<open>Inr False\<close> when it
  returns \<open>None\<close>, and \<open>Inl ReError\<close> when the pattern does not compile.
\<close>

datatype re_flag = IGNORECASE

type_synonym re_search = "string \<Rightarrow> string \<Rightarrow> re_flag list \<Rightarrow> error + bool"

text \<open>\<open>int(vid, 16) if isinstance(vid, str) else vid\<close>\<close>

definition id_int :: "id_value \<Rightarrow> error + int" where
  "id_int v =
     (case v of
        IntV n \<Rightarrow> Inr n
      | StrV s \<Rightarrow> (case int_base16 s of None \<Rightarrow> Inl ValueError | Some n \<Rightarrow> Inr n))"

text \<open>The VID/PID block of the loop body: both values are converted, then compared.\<close>

definition vidpid_check :: "rule \<Rightarrow> input_device \<Rightarrow> error + bool" where
  "vidpid_check r d =
     (case (vendor_id r, product_id r) of
        (Some vid, Some pid) \<Rightarrow>
          (case id_int vid of
             Inl e \<Rightarrow> Inl e
           | Inr vid_int \<Rightarrow>
               (case id_int pid of
                  Inl e \<Rightarrow> Inl e
                | Inr pid_int \<Rightarrow> Inr (dev_vendor d = vid_int \<and> dev_product d = pid_int)))
      | _ \<Rightarrow> Inr False)"

text \<open>The name-pattern block of the loop body.\<close>

definition pattern_check :: "re_search \<Rightarrow> rule \<Rightarrow> input_device \<Rightarrow> error + bool" where
  "pattern_check search r d =
     (case name_pattern r of
        None \<Rightarrow> Inr False
      | Some pattern \<Rightarrow> search pattern (dev_name d) [IGNORECASE])"

text \<open>
  \<open>matches\<close>: the rules are tried in order, the VID/PID block before the pattern
  block; the first block that holds returns True, an exception leaves the loop.
\<close>

fun matches :: "re_search \<Rightarrow> rule list \<Rightarrow> input_device \<Rightarrow> error + bool" where
  "matches search [] d = Inr False"
| "matches search (r # rs) d =
     (case vidpid_check r d of
        Inl e \<Rightarrow> Inl e
      | Inr True \<Rightarrow> Inr True
      | Inr False \<Rightarrow>
          (case pattern_check search r d of
             Inl e \<Rightarrow> Inl e
           | Inr True \<Rightarrow> Inr True
           | Inr False \<Rightarrow> matches search rs d))"

text \<open>
  An instance of the parameter for patterns without metacharacters (letters, digits,
  spaces): there \<open>re.search\<close> with \<open>re.IGNORECASE\<close> looks for the pattern as a
  substring, ignoring the case of ASCII letters.
\<close>

definition ascii_lower :: "char \<Rightarrow> char" where
  "ascii_lower c =
     (let n = (of_char c :: nat) in if 65 \<le> n \<and> n \<le> 90 then char_of (n + 32) else c)"

fun find_sub :: "string \<Rightarrow> string \<Rightarrow> bool" where
  "find_sub p [] = (p = [])"
| "find_sub p (c # cs) = (take (length p) (c # cs) = p \<or> find_sub p cs)"

definition literal_search :: re_search where
  "literal_search pattern s flags =
     (if IGNORECASE \<in> set flags
      then Inr (find_sub (map ascii_lower pattern) (map ascii_lower s))
      else Inr (find_sub pattern s))"

subsection \<open>Plugin records, panels and the manager's state\<close>

text \<open>\<open>PluginDeviceInfo(name, vendor_id, product_id, path)\<close>\<close>

record plugin_device_info =
  info_name :: string
  info_vendor_id :: int
  info_product_id :: int
  info_path :: string

text \<open>
  A panel instance is an object; its identity is a reference, and every call of a
  panel class makes an object with a reference not used before. The UI button
  callback of the host is a reference too. Preset settings are a dictionary.
\<close>

type_synonym panel_ref = nat
type_synonym callback = nat
type_synonym settings = "(string \<times> string) list"

text \<open>
  The calls the manager makes into plugin code: the panel class itself
  (\<open>panel_class(title, self._button_callback, context)\<close>) and the operations of the
  panel instance.
\<close>

datatype panel_call =
    Construct string "callback option"
  | Active int
  | OnDeviceConnected plugin_device_info
  | OnDeviceDisconnected plugin_device_info
  | Shutdown
  | PresetDeviceName
  | GetPresetSettings
  | OnPresetLoaded settings

text \<open>
  The events the manager dispatches to the host. The messages of a load error that
  end with the text of an exception are kept up to that text.
\<close>

datatype host_event =
    PanelAvailable string panel_ref
  | PanelUnavailable string
  | LoadError string string

text \<open>
  What the manager does to the world outside is written to a trace: a call into the
  code of plugin \<open>name\<close> on the panel \<open>ref\<close>, an event dispatched to the host, a sleep
  of the monitor thread in seconds, a line printed by the monitor loop. The \<open>print\<close>
  calls of the other methods are left out.
\<close>

datatype event =
    PanelCall string panel_ref panel_call
  | Dispatch host_event
  | Sleep nat
  | Print string

text \<open>
  Plugin code is a parameter: whether a call raises (an exception that is an
  \<open>Exception\<close>), what \<open>preset_device_name\<close> evaluates to and what
  \<open>get_preset_settings()\<close> returns, each as a function of the trace so far and the
  plugin's name, so that plugin code with a state of its own is covered.
\<close>

record plugin_code =
  raises :: "event list \<Rightarrow> string \<Rightarrow> panel_call \<Rightarrow> bool"
  preset_name :: "event list \<Rightarrow> string \<Rightarrow> string"
  preset_settings :: "event list \<Rightarrow> string \<Rightarrow> settings"

text \<open>
  \<open>LoadedPlugin\<close>: \<open>panel_title\<close> is \<open>metadata.get("panel_title")\<close> and \<open>rules\<close> is
  \<open>matcher.devices\<close>. A panel instance is truthy, so \<open>if plugin.panel_instance\<close> asks
  whether the field is not \<open>None\<close>.
\<close>

record loaded_plugin =
  lp_name :: string
  panel_title :: "string option"
  rules :: "rule list"
  lp_path :: string
  panel_instance :: "panel_ref option"
  connected_devices :: "plugin_device_info list"

text \<open>
  \<open>PluginManager\<close>: \<open>plugins\<close> is the dictionary \<open>_plugins\<close> in its iteration order
  (the order of insertion), \<open>running\<close> the event \<open>_running\<close>.
\<close>

record manager =
  plugins :: "loaded_plugin list"
  button_callback :: "callback option"
  running :: bool
  trace :: "event list"
  next_panel :: panel_ref

definition call_panel ::
  "plugin_code \<Rightarrow> string \<Rightarrow> panel_ref \<Rightarrow> panel_call \<Rightarrow> manager \<Rightarrow> bool \<times> manager" where
  "call_panel w name ref c m =
     (raises w (trace m) name c, m\<lparr>trace := trace m @ [PanelCall name ref c]\<rparr>)"

text \<open>
  Modelled from the spec: \<open>EventDispatcher._dispatch\<close> (foxblat/subscription.py is not
  under src/). The spec's "lifecycle events emitted to the host": the event reaches
  the host and the call returns.
\<close>

definition dispatch :: "host_event \<Rightarrow> manager \<Rightarrow> manager" where
  "dispatch e m = m\<lparr>trace := trace m @ [Dispatch e]\<rparr>"

text \<open>\<open>plugin.metadata.get("panel_title", plugin.name)\<close>\<close>

definition title_of :: "loaded_plugin \<Rightarrow> string" where
  "title_of p = (case panel_title p of None \<Rightarrow> lp_name p | Some t \<Rightarrow> t)"

text \<open>
  \<open>for plugin in self._plugins.values()\<close>: the body is run on each record in order
  and may change the record and the rest of the manager; an exception that leaves the
  body leaves the loop, and what was changed until then stays changed. The body never
  reads or writes the field \<open>plugins\<close> of the manager it is given.
\<close>

fun for_plugins ::
  "(loaded_plugin \<Rightarrow> manager \<Rightarrow> error option \<times> loaded_plugin \<times> manager) \<Rightarrow>
   loaded_plugin list \<Rightarrow> manager \<Rightarrow> error option \<times> loaded_plugin list \<times> manager" where
  "for_plugins body [] m = (None, [], m)"
| "for_plugins body (p # ps) m =
     (case body p m of
        (Some e, p', m') \<Rightarrow> (Some e, p' # ps, m')
      | (None, p', m') \<Rightarrow>
          (case for_plugins body ps m' of (r, ps', m'') \<Rightarrow> (r, p' # ps', m'')))"

definition with_plugins ::
  "(loaded_plugin \<Rightarrow> manager \<Rightarrow> error option \<times> loaded_plugin \<times> manager) \<Rightarrow>
   manager \<Rightarrow> error option \<times> manager" where
  "with_plugins body m =
     (case for_plugins body (plugins m) m of (r, ps, m') \<Rightarrow> (r, m'\<lparr>plugins := ps\<rparr>))"

subsection \<open>\_instantiate\_plugin\_panel\<close>

text \<open>The inner loop: every connected device is announced; an exception is printed.\<close>

fun notify_existing ::
  "plugin_code \<Rightarrow> string \<Rightarrow> panel_ref \<Rightarrow> plugin_device_info list \<Rightarrow> manager \<Rightarrow> manager" where
  "notify_existing w name ref [] m = m"
| "notify_existing w name ref (di # ds) m =
     notify_existing w name ref ds (snd (call_panel w name ref (OnDeviceConnected di) m))"

definition instantiate_failed :: "loaded_plugin \<Rightarrow> manager \<Rightarrow> manager" where
  "instantiate_failed p m = dispatch (LoadError (lp_name p) ''Failed to instantiate panel: '') m"

text \<open>
  The whole body is one \<open>try\<close>: the first exception of the panel class, of
  \<open>active(-2)\<close> or of \<open>active(1)\<close> goes to the handler, which dispatches a load error.
  The field \<open>panel_instance\<close> is assigned as soon as the panel class has returned.
\<close>

definition instantiate_plugin_panel ::
  "plugin_code \<Rightarrow> loaded_plugin \<Rightarrow> manager \<Rightarrow> loaded_plugin \<times> manager" where
  "instantiate_plugin_panel w p m =
     (let name = lp_name p;
          ref = next_panel m;
          (r0, m0) = call_panel w name ref (Construct (title_of p) (button_callback m)) m
      in if r0 then (p, instantiate_failed p m0)
         else
           let p1 = p\<lparr>panel_instance := Some ref\<rparr>;
               (r1, m1) = call_panel w name ref (Active (- 2)) (m0\<lparr>next_panel := Suc ref\<rparr>)
           in if r1 then (p1, instantiate_failed p m1)
              else
                let m2 = notify_existing w name ref (connected_devices p1) m1
                in if connected_devices p1 \<noteq> []
                   then (case call_panel w name ref (Active 1) m2 of
                           (True, m3) \<Rightarrow> (p1, instantiate_failed p m3)
                         | (False, m3) \<Rightarrow> (p1, dispatch (PanelAvailable name ref) m3))
                   else (p1, dispatch (PanelAvailable name ref) m2))"

subsection \<open>\_handle\_device\_connected\<close>

definition device_info_of :: "input_device \<Rightarrow> plugin_device_info" where
  "device_info_of d =
     \<lparr>info_name = dev_name d, info_vendor_id = dev_vendor d,
      info_product_id = dev_product d, info_path = dev_path d\<rparr>"

text \<open>
  The notification of a panel that exists already: one \<open>try\<close> around
  \<open>on_device_connected\<close> and \<open>active(1)\<close>, so the second is skipped when the first raises.
\<close>

definition notify_connected ::
  "plugin_code \<Rightarrow> string \<Rightarrow> panel_ref \<Rightarrow> plugin_device_info \<Rightarrow> manager \<Rightarrow> manager" where
  "notify_connected w name ref di m =
     (case call_panel w name ref (OnDeviceConnected di) m of
        (True, m1) \<Rightarrow> m1
      | (False, m1) \<Rightarrow> snd (call_panel w name ref (Active 1) m1))"

definition connect_plugin ::
  "plugin_code \<Rightarrow> re_search \<Rightarrow> input_device \<Rightarrow> loaded_plugin \<Rightarrow> manager \<Rightarrow>
   error option \<times> loaded_plugin \<times> manager" where
  "connect_plugin w search d p m =
     (case matches search (rules p) d of
        Inl e \<Rightarrow> (Some e, p, m)
      | Inr False \<Rightarrow> (None, p, m)
      | Inr True \<Rightarrow>
          let device_info = device_info_of d;
              p1 = p\<lparr>connected_devices := connected_devices p @ [device_info]\<rparr>
          in if panel_instance p1 = None \<and> button_callback m \<noteq> None
             then (case instantiate_plugin_panel w p1 m of (p2, m2) \<Rightarrow> (None, p2, m2))
             else (case panel_instance p1 of
                     Some ref \<Rightarrow> (None, p1, notify_connected w (lp_name p1) ref device_info m)
                   | None \<Rightarrow> (None, p1, m)))"

definition handle_device_connected ::
  "plugin_code \<Rightarrow> re_search \<Rightarrow> input_device \<Rightarrow> manager \<Rightarrow> error option \<times> manager" where
  "handle_device_connected w search d m = with_plugins (connect_plugin w search d) m"

subsection \<open>\_handle\_device\_disconnected\<close>

text \<open>
  The inner loop runs over a copy of the device list. \<open>list.remove\<close> takes out the
  first element equal to its argument and raises ValueError when there is none. The
  call of \<open>on_device_disconnected\<close> is in a \<open>try\<close>; the call of \<open>active(-1)\<close> is not.
\<close>

fun disconnect_devices ::
  "plugin_code \<Rightarrow> string \<Rightarrow> plugin_device_info list \<Rightarrow> loaded_plugin \<Rightarrow> manager \<Rightarrow>
   error option \<times> loaded_plugin \<times> manager" where
  "disconnect_devices w path [] p m = (None, p, m)"
| "disconnect_devices w path (di # rest) p m =
     (if info_path di = path
      then if di \<notin> set (connected_devices p) then (Some ValueError, p, m)
           else
             let p1 = p\<lparr>connected_devices := remove1 di (connected_devices p)\<rparr>;
                 m1 = (case panel_instance p1 of
                         Some ref \<Rightarrow> snd (call_panel w (lp_name p1) ref (OnDeviceDisconnected di) m)
                       | None \<Rightarrow> m)
             in (case panel_instance p1 of
                   Some ref \<Rightarrow>
                     if connected_devices p1 = []
                     then (case call_panel w (lp_name p1) ref (Active (- 1)) m1 of
                             (True, m2) \<Rightarrow> (Some PluginError, p1, m2)
                           | (False, m2) \<Rightarrow> disconnect_devices w path rest p1 m2)
                     else disconnect_devices w path rest p1 m1
                 | None \<Rightarrow> disconnect_devices w path rest p1 m1)
      else disconnect_devices w path rest p m)"

definition disconnect_plugin ::
  "plugin_code \<Rightarrow> string \<Rightarrow> loaded_plugin \<Rightarrow> manager \<Rightarrow>
   error option \<times> loaded_plugin \<times> manager" where
  "disconnect_plugin w path p m = disconnect_devices w path (connected_devices p) p m"

definition handle_device_disconnected ::
  "plugin_code \<Rightarrow> string \<Rightarrow> manager \<Rightarrow> error option \<times> manager" where
  "handle_device_disconnected w path m = with_plugins (disconnect_plugin w path) m"

subsection \<open>get\_plugin\_panels, stop and the preset operations\<close>

text \<open>\<open>d[k] = v\<close> on a dictionary kept in insertion order.\<close>

fun dict_set :: "('k \<times> 'v) list \<Rightarrow> 'k \<Rightarrow> 'v \<Rightarrow> ('k \<times> 'v) list" where
  "dict_set [] k v = [(k, v)]"
| "dict_set ((k', v') # kvs) k v =
     (if k' = k then (k, v) # kvs else (k', v') # dict_set kvs k v)"

definition panels_plugin ::
  "plugin_code \<Rightarrow> loaded_plugin \<Rightarrow> manager \<Rightarrow> error option \<times> loaded_plugin \<times> manager" where
  "panels_plugin w p m =
     (if connected_devices p \<noteq> []
      then if panel_instance p = None
           then (case instantiate_plugin_panel w p m of (p', m') \<Rightarrow> (None, p', m'))
           else (None, p, m)
      else (None, p, m))"

text \<open>
  The dictionary \<open>panels\<close>: a record is entered, under its title, right after its own
  turn in the loop, and later turns do not change it, so the dictionary is read off
  the records as they are when the loop has ended.
\<close>

fun panels_dict :: "loaded_plugin list \<Rightarrow> (string \<times> panel_ref) list \<Rightarrow> (string \<times> panel_ref) list" where
  "panels_dict [] acc = acc"
| "panels_dict (p # ps) acc =
     (case panel_instance p of
        Some ref \<Rightarrow>
          if connected_devices p \<noteq> [] then panels_dict ps (dict_set acc (title_of p) ref)
          else panels_dict ps acc
      | None \<Rightarrow> panels_dict ps acc)"

definition get_plugin_panels ::
  "plugin_code \<Rightarrow> callback \<Rightarrow> manager \<Rightarrow> (string \<times> panel_ref) list \<times> manager" where
  "get_plugin_panels w cb m =
     (case with_plugins (panels_plugin w) (m\<lparr>button_callback := Some cb\<rparr>) of
        (r, m') \<Rightarrow> (panels_dict (plugins m') [], m'))"

definition stop_plugin ::
  "plugin_code \<Rightarrow> loaded_plugin \<Rightarrow> manager \<Rightarrow> error option \<times> loaded_plugin \<times> manager" where
  "stop_plugin w p m =
     (case panel_instance p of
        Some ref \<Rightarrow> (None, p, snd (call_panel w (lp_name p) ref Shutdown m))
      | None \<Rightarrow> (None, p, m))"

definition stop :: "plugin_code \<Rightarrow> manager \<Rightarrow> error option \<times> manager" where
  "stop w m = with_plugins (stop_plugin w) (m\<lparr>running := False\<rparr>)"

text \<open>
  \<open>get_plugin_preset_settings\<close>: the attribute \<open>preset_device_name\<close> is read outside
  the \<open>try\<close>; when \<open>get_preset_settings()\<close> raises, the loop goes on.
\<close>

fun get_plugin_preset_settings_loop ::
  "plugin_code \<Rightarrow> string \<Rightarrow> loaded_plugin list \<Rightarrow> manager \<Rightarrow> (error + settings) \<times> manager" where
  "get_plugin_preset_settings_loop w device_name [] m = (Inr [], m)"
| "get_plugin_preset_settings_loop w device_name (p # ps) m =
     (case panel_instance p of
        None \<Rightarrow> get_plugin_preset_settings_loop w device_name ps m
      | Some ref \<Rightarrow>
          (case call_panel w (lp_name p) ref PresetDeviceName m of
             (True, m1) \<Rightarrow> (Inl PluginError, m1)
           | (False, m1) \<Rightarrow>
               if preset_name w (trace m) (lp_name p) = device_name
               then (case call_panel w (lp_name p) ref GetPresetSettings m1 of
                       (True, m2) \<Rightarrow> get_plugin_preset_settings_loop w device_name ps m2
                     | (False, m2) \<Rightarrow> (Inr (preset_settings w (trace m1) (lp_name p)), m2))
               else get_plugin_preset_settings_loop w device_name ps m1))"

definition get_plugin_preset_settings ::
  "plugin_code \<Rightarrow> string \<Rightarrow> manager \<Rightarrow> (error + settings) \<times> manager" where
  "get_plugin_preset_settings w device_name m =
     get_plugin_preset_settings_loop w device_name (plugins m) m"

text \<open>The list \<open>available\<close> that is printed when no plugin has the name.\<close>

fun available_names ::
  "plugin_code \<Rightarrow> loaded_plugin list \<Rightarrow> manager \<Rightarrow> error option \<times> manager" where
  "available_names w [] m = (None, m)"
| "available_names w (p # ps) m =
     (case panel_instance p of
        None \<Rightarrow> available_names w ps m
      | Some ref \<Rightarrow>
          (case call_panel w (lp_name p) ref PresetDeviceName m of
             (True, m1) \<Rightarrow> (Some PluginError, m1)
           | (False, m1) \<Rightarrow> available_names w ps m1))"

text \<open>
  The loop of \<open>apply_plugin_preset_settings\<close>: \<open>Inl\<close> when the method is left from
  inside the loop (by \<open>return\<close> or by an exception of \<open>preset_device_name\<close>), \<open>Inr\<close>
  with the manager as the loop leaves it when no panel has the name. The list
  \<open>available\<close> is then built on that manager, so every name is read a second time.
\<close>

fun apply_plugin_preset_settings_loop ::
  "plugin_code \<Rightarrow> string \<Rightarrow> settings \<Rightarrow> loaded_plugin list \<Rightarrow> manager \<Rightarrow>
   (error option \<times> manager) + manager" where
  "apply_plugin_preset_settings_loop w device_name st [] m = Inr m"
| "apply_plugin_preset_settings_loop w device_name st (p # ps) m =
     (case panel_instance p of
        None \<Rightarrow> apply_plugin_preset_settings_loop w device_name st ps m
      | Some ref \<Rightarrow>
          (case call_panel w (lp_name p) ref PresetDeviceName m of
             (True, m1) \<Rightarrow> Inl (Some PluginError, m1)
           | (False, m1) \<Rightarrow>
               if preset_name w (trace m) (lp_name p) = device_name
               then Inl (None, snd (call_panel w (lp_name p) ref (OnPresetLoaded st) m1))
               else apply_plugin_preset_settings_loop w device_name st ps m1))"

definition apply_plugin_preset_settings ::
  "plugin_code \<Rightarrow> string \<Rightarrow> settings \<Rightarrow> manager \<Rightarrow> error option \<times> manager" where
  "apply_plugin_preset_settings w device_name st m =
     (case apply_plugin_preset_settings_loop w device_name st (plugins m) m of
        Inl r \<Rightarrow> r
      | Inr m' \<Rightarrow> available_names w (plugins m) m')"

subsection \<open>\_load\_plugin and \_discover\_plugins\<close>

text \<open>
  What the loader finds in one entry of the plugins directory. \<open>metadata_load\<close> is the
  outcome of \<open>open\<close> and \<open>json.load\<close> on plugin.json: a syntax error
  (JSONDecodeError), bytes that are not UTF-8 (UnicodeDecodeError, which is not a
  JSONDecodeError), or the parsed document. A JSON document is an object or any other
  JSON value; of an array the loader can only see its string elements. A value in the
  object is a string or something else. \<open>module_raises\<close> says whether executing
  \_\_init\_\_.py raises, \<open>module_attrs\<close> lists the attributes of the loaded module, each
  a class that extends PluginPanel, another class, or an object that is not a class.
\<close>

datatype name_value = NameStr string | NameOther

record metadata =
  md_name :: "name_value option"
  md_panel_class :: "name_value option"
  md_panel_title :: "string option"
  md_devices :: "rule list option"

datatype json_doc = JObject metadata | JArray "string list" | JString string | JScalar

datatype json_load = JSONDecodeError | NotUTF8 | Parsed json_doc

datatype py_object = PanelSubclass | OtherClass | NotAClass

record plugin_bundle =
  entry :: string
  dir_path :: string
  is_dir :: bool
  has_metadata_file :: bool
  has_init_file :: bool
  metadata_load :: json_load
  module_raises :: bool
  module_attrs :: "(string \<times> py_object) list"

text \<open>
  \<open>field in metadata\<close>: key membership for an object, element membership for an
  array, substring for a string, TypeError for a number, a boolean or null.
\<close>

definition has_field :: "json_doc \<Rightarrow> string \<Rightarrow> error + bool" where
  "has_field doc field =
     (case doc of
        JObject md \<Rightarrow>
          Inr ((field = ''name'' \<and> md_name md \<noteq> None)
             \<or> (field = ''panel_class'' \<and> md_panel_class md \<noteq> None)
             \<or> (field = ''panel_title'' \<and> md_panel_title md \<noteq> None)
             \<or> (field = ''devices'' \<and> md_devices md \<noteq> None))
      | JArray xs \<Rightarrow> Inr (field \<in> set xs)
      | JString s \<Rightarrow> Inr (find_sub field s)
      | JScalar \<Rightarrow> Inl TypeError)"

text \<open>The loop over \<open>required_fields\<close>: the first field that is missing, if any.\<close>

fun missing_field :: "json_doc \<Rightarrow> string list \<Rightarrow> error + string option" where
  "missing_field doc [] = Inr None"
| "missing_field doc (field # others) =
     (case has_field doc field of
        Inl e \<Rightarrow> Inl e
      | Inr False \<Rightarrow> Inr (Some field)
      | Inr True \<Rightarrow> missing_field doc others)"

text \<open>\<open>self._plugins[name] = LoadedPlugin(...)\<close>\<close>

fun store_plugin :: "loaded_plugin list \<Rightarrow> loaded_plugin \<Rightarrow> loaded_plugin list" where
  "store_plugin [] p = [p]"
| "store_plugin (q # qs) p = (if lp_name q = lp_name p then p # qs else q # store_plugin qs p)"

definition load_error :: "plugin_bundle \<Rightarrow> string \<Rightarrow> manager \<Rightarrow> (error + bool) \<times> manager" where
  "load_error b msg m = (Inr False, dispatch (LoadError (entry b) msg) m)"

text \<open>
  The last part of \<open>_load_plugin\<close>, for a metadata object: \<open>metadata["panel_class"]\<close>,
  \<open>hasattr\<close>, \<open>getattr\<close>, \<open>issubclass\<close> and the new record.
\<close>

definition bind_panel_class :: "plugin_bundle \<Rightarrow> metadata \<Rightarrow> manager \<Rightarrow> (error + bool) \<times> manager" where
  "bind_panel_class b md m =
     (case md_panel_class md of
        None \<Rightarrow> (Inl KeyError, m)
      | Some NameOther \<Rightarrow> (Inl TypeError, m)
      | Some (NameStr panel_class_name) \<Rightarrow>
          (case map_of (module_attrs b) panel_class_name of
             None \<Rightarrow> load_error b (''Panel class not found: '' @ panel_class_name) m
           | Some NotAClass \<Rightarrow> (Inl TypeError, m)
           | Some OtherClass \<Rightarrow> load_error b ''Panel class must extend PluginPanel'' m
           | Some PanelSubclass \<Rightarrow>
               (Inr True,
                m\<lparr>plugins := store_plugin (plugins m)
                     \<lparr>lp_name = entry b, panel_title = md_panel_title md,
                      rules = (case md_devices md of None \<Rightarrow> [] | Some rs \<Rightarrow> rs),
                      lp_path = dir_path b, panel_instance = None,
                      connected_devices = []\<rparr>\<rparr>)))"

definition load_plugin :: "plugin_bundle \<Rightarrow> manager \<Rightarrow> (error + bool) \<times> manager" where
  "load_plugin b m =
     (if \<not> has_metadata_file b then load_error b ''Missing plugin.json'' m
      else if \<not> has_init_file b then load_error b ''Missing __init__.py'' m
      else case metadata_load b of
             JSONDecodeError \<Rightarrow> load_error b ''Invalid plugin.json: '' m
           | NotUTF8 \<Rightarrow> (Inl UnicodeDecodeError, m)
           | Parsed doc \<Rightarrow>
               (case missing_field doc [''name'', ''panel_class'', ''devices''] of
                  Inl e \<Rightarrow> (Inl e, m)
                | Inr (Some field) \<Rightarrow> load_error b (''Missing required field: '' @ field) m
                | Inr None \<Rightarrow>
                    if module_raises b then load_error b ''Failed to load module: '' m
                    else (case doc of
                            JObject md \<Rightarrow> bind_panel_class b md m
                          | _ \<Rightarrow> (Inl TypeError, m))))"

text \<open>
  \<open>_discover_plugins\<close> over the listing of the plugins directory (a directory that
  does not exist is the empty listing): every entry that is a directory is loaded; an
  exception that leaves \<open>_load_plugin\<close> leaves the loop.
\<close>

fun discover_plugins :: "plugin_bundle list \<Rightarrow> manager \<Rightarrow> error option \<times> manager" where
  "discover_plugins [] m = (None, m)"
| "discover_plugins (b # bs) m =
     (if is_dir b
      then (case load_plugin b m of
              (Inl e, m') \<Rightarrow> (Some e, m')
            | (Inr ok, m') \<Rightarrow> discover_plugins bs m')
      else discover_plugins bs m)"

text \<open>The load errors dispatched so far, and the names of the records.\<close>

fun load_errors :: "event list \<Rightarrow> (string \<times> string) list" where
  "load_errors [] = []"
| "load_errors (Dispatch (LoadError name msg) # es) = (name, msg) # load_errors es"
| "load_errors (e # es) = load_errors es"

subsection \<open>\_device\_scan\_loop\<close>

text \<open>
  One pass of the monitor sees the flag \<open>_running\<close> and the outcome of the
  enumeration: \<open>evdev.list_devices()\<close> raises an exception, given by its text, or it
  returns paths, each of which \<open>evdev.InputDevice(path)\<close> opens or fails to open. The
  loop is run on a script of such observations, one for each pass; it ends when the
  flag is clear (\<open>Stopped\<close>), when an exception leaves it (\<open>Raised\<close>), and it is
  \<open>Unfinished\<close> when the script is used up while the flag is still set. Python leaves
  the order in which a set is traversed open; here it is the order of the enumeration.
\<close>

datatype enumeration = EnumError string | Listed "(string \<times> input_device option) list"

datatype loop_exit = Stopped | Raised error | Unfinished

definition sleep :: "nat \<Rightarrow> manager \<Rightarrow> manager" where
  "sleep n m = m\<lparr>trace := trace m @ [Sleep n]\<rparr>"

definition print :: "string \<Rightarrow> manager \<Rightarrow> manager" where
  "print line m = m\<lparr>trace := trace m @ [Print line]\<rparr>"

fun open_devices ::
  "(string \<times> input_device option) list \<Rightarrow> (string \<times> input_device) list \<Rightarrow>
   (string \<times> input_device) list" where
  "open_devices [] current_devices = current_devices"
| "open_devices ((path, None) # rest) current_devices = open_devices rest current_devices"
| "open_devices ((path, Some device) # rest) current_devices =
     open_devices rest (dict_set current_devices path device)"

fun connect_new ::
  "plugin_code \<Rightarrow> re_search \<Rightarrow> input_device list \<Rightarrow> manager \<Rightarrow> error option \<times> manager" where
  "connect_new w search [] m = (None, m)"
| "connect_new w search (d # ds) m =
     (case handle_device_connected w search d m of
        (Some e, m') \<Rightarrow> (Some e, m')
      | (None, m') \<Rightarrow> connect_new w search ds m')"

fun disconnect_removed ::
  "plugin_code \<Rightarrow> string list \<Rightarrow> manager \<Rightarrow> error option \<times> manager" where
  "disconnect_removed w [] m = (None, m)"
| "disconnect_removed w (path # paths) m =
     (case handle_device_disconnected w path m of
        (Some e, m') \<Rightarrow> (Some e, m')
      | (None, m') \<Rightarrow> disconnect_removed w paths m')"

fun scan_passes ::
  "plugin_code \<Rightarrow> re_search \<Rightarrow> (bool \<times> enumeration) list \<Rightarrow> string list \<Rightarrow> manager \<Rightarrow>
   loop_exit \<times> manager" where
  "scan_passes w search [] known_devices m = (Unfinished, m)"
| "scan_passes w search ((is_set, en) # script) known_devices m =
     (if \<not> is_set then (Stopped, m)
      else case en of
             EnumError e \<Rightarrow>
               scan_passes w search script known_devices
                 (sleep 3 (print (''[PluginManager] Error listing devices: '' @ e) m))
           | Listed opened \<Rightarrow>
               let current_devices = open_devices opened [];
                   current_paths = map fst current_devices;
                   new_devices = filter (\<lambda>(path, d). path \<notin> set known_devices) current_devices
               in (case connect_new w search (map snd new_devices) m of
                     (Some e, m1) \<Rightarrow> (Raised e, m1)
                   | (None, m1) \<Rightarrow>
                       let removed_paths = filter (\<lambda>path. path \<notin> set current_paths) known_devices
                       in (case disconnect_removed w removed_paths m1 of
                             (Some e, m2) \<Rightarrow> (Raised e, m2)
                           | (None, m2) \<Rightarrow> scan_passes w search script current_paths (sleep 3 m2))))"

definition device_scan_loop ::
  "plugin_code \<Rightarrow> re_search \<Rightarrow> (bool \<times> enumeration) list \<Rightarrow> manager \<Rightarrow> loop_exit \<times> manager" where
  "device_scan_loop w search script m = scan_passes w search script [] (sleep 1 m)"

text \<open>The sleeps of a trace, in seconds.\<close>

fun sleeps :: "event list \<Rightarrow> nat list" where
  "sleeps [] = []"
| "sleeps (Sleep n # es) = n # sleeps es"
| "sleeps (e # es) = sleeps es"

subsection \<open>What a trace says about one plugin\<close>

text \<open>
  The events of a trace that concern the plugin \<open>name\<close>: the calls into its code and
  the events dispatched under its name.
\<close>

fun concerns :: "string \<Rightarrow> event \<Rightarrow> bool" where
  "concerns name (PanelCall n ref c) = (n = name)"
| "concerns name (Dispatch (PanelAvailable n ref)) = (n = name)"
| "concerns name (Dispatch (PanelUnavailable n)) = (n = name)"
| "concerns name (Dispatch (LoadError n msg)) = (n = name)"
| "concerns name (Sleep k) = False"
| "concerns name (Print line) = False"

definition events_of :: "string \<Rightarrow> event list \<Rightarrow> event list" where
  "events_of name tr = filter (concerns name) tr"

text \<open>
  A call into plugin code is decided by the plugin code on the trace as it is when the
  call is made (\<open>call_panel\<close>), so a trace determines which of its calls raised:
  \<open>outcomes w pre tr\<close> pairs every event of \<open>tr\<close>, which follows the events \<open>pre\<close>,
  with that answer; an event that is not a call does not raise.
\<close>

fun outcomes :: "plugin_code \<Rightarrow> event list \<Rightarrow> event list \<Rightarrow> (event \<times> bool) list" where
  "outcomes w pre [] = []"
| "outcomes w pre (e # es) =
     (e, case e of PanelCall name ref c \<Rightarrow> raises w pre name c | _ \<Rightarrow> False)
       # outcomes w (pre @ [e]) es"

definition outcomes_of :: "plugin_code \<Rightarrow> string \<Rightarrow> event list \<Rightarrow> (event \<times> bool) list" where
  "outcomes_of w name tr = filter (\<lambda>x. concerns name (fst x)) (outcomes w [] tr)"

text \<open>
  The ways an instantiation of the panel of a record \<open>p\<close> that has devices can go, as
  a condition on the new events of the plugin, each with whether it raised, and on the
  record \<open>p'\<close> afterwards. The panel class raises: a load error, and no panel is
  stored. The panel class returns the panel \<open>ref\<close>, which is stored, and \<open>active(-2)\<close>
  raises: a load error. Otherwise every device of the record is announced, whether or
  not an announcement raises, and \<open>active(1)\<close> is called: when it raises, a load
  error; when it returns, the one event "panel available".
\<close>

definition instantiation_outcome ::
  "loaded_plugin \<Rightarrow> callback option \<Rightarrow> panel_ref \<Rightarrow> (event \<times> bool) list \<Rightarrow> loaded_plugin \<Rightarrow> bool" where
  "instantiation_outcome p cb ref new p' =
     (let name = lp_name p;
          made = PanelCall name ref (Construct (title_of p) cb);
          reset = PanelCall name ref (Active (- 2));
          shown = PanelCall name ref (Active 1);
          announced = map (\<lambda>di. PanelCall name ref (OnDeviceConnected di)) (connected_devices p);
          made_available = Dispatch (PanelAvailable name ref);
          failed = Dispatch (LoadError name ''Failed to instantiate panel: '');
          stored = p\<lparr>panel_instance := Some ref\<rparr>;
          middle = take (length announced) (drop 2 new)
      in (new = [(made, True), (failed, False)] \<and> p' = p)
       \<or> (new = [(made, False), (reset, True), (failed, False)] \<and> p' = stored)
       \<or> (map fst middle = announced \<and> p' = stored \<and>
            (new = [(made, False), (reset, False)] @ middle @ [(shown, True), (failed, False)]
           \<or> new = [(made, False), (reset, False)] @ middle
                  @ [(shown, False), (made_available, False)])))"

subsection \<open>Example data\<close>

definition wheel_rule :: rule where
  "wheel_rule =
     \<lparr>vendor_id = Some (StrV ''0x046d''), product_id = Some (IntV 49813), name_pattern = None\<rparr>"

definition wheel_dev :: input_device where
  "wheel_dev =
     \<lparr>dev_name = ''G29 Driving Force'', dev_vendor = 1133, dev_product = 49813,
      dev_path = ''/dev/input/event7''\<rparr>"

definition both_rule :: rule where
  "both_rule =
     \<lparr>vendor_id = Some (IntV 1133), product_id = Some (StrV ''c295''),
      name_pattern = Some ''Wheel''\<rparr>"

definition racing_dev :: input_device where
  "racing_dev =
     \<lparr>dev_name = ''Racing WHEEL Pro'', dev_vendor = 4660, dev_product = 22136,
      dev_path = ''/dev/input/event9''\<rparr>"

text \<open>
  Plugin code that never raises; plugin code whose panel of the plugin "wheel" raises
  in \<open>active(-1)\<close>; plugin code whose panels raise in \<open>active(-2)\<close>; plugin code
  whose panels raise in \<open>on_device_connected\<close>.
\<close>

definition quiet_code :: plugin_code where
  "quiet_code =
     \<lparr>raises = (\<lambda>tr name c. False), preset_name = (\<lambda>tr name. name),
      preset_settings = (\<lambda>tr name. [])\<rparr>"

definition deactivate_fails :: plugin_code where
  "deactivate_fails =
     \<lparr>raises = (\<lambda>tr name c. name = ''wheel'' \<and> c = Active (- 1)),
      preset_name = (\<lambda>tr name. name), preset_settings = (\<lambda>tr name. [])\<rparr>"

definition init_fails :: plugin_code where
  "init_fails =
     \<lparr>raises = (\<lambda>tr name c. c = Active (- 2)),
      preset_name = (\<lambda>tr name. name), preset_settings = (\<lambda>tr name. [])\<rparr>"

definition announce_fails :: plugin_code where
  "announce_fails =
     \<lparr>raises = (\<lambda>tr name c. case c of OnDeviceConnected di \<Rightarrow> True | _ \<Rightarrow> False),
      preset_name = (\<lambda>tr name. name), preset_settings = (\<lambda>tr name. [])\<rparr>"

text \<open>Two loaded plugins whose rules both accept \<open>wheel_dev\<close>, and managers.\<close>

definition wheel_plugin :: loaded_plugin where
  "wheel_plugin =
     \<lparr>lp_name = ''wheel'', panel_title = None, rules = [wheel_rule],
      lp_path = ''plugins/wheel'', panel_instance = None, connected_devices = []\<rparr>"

definition dash_plugin :: loaded_plugin where
  "dash_plugin =
     \<lparr>lp_name = ''dash'', panel_title = Some ''Dashboard'',
      rules = [\<lparr>vendor_id = None, product_id = None, name_pattern = Some ''g29''\<rparr>],
      lp_path = ''plugins/dash'', panel_instance = None, connected_devices = []\<rparr>"

definition manager0 :: manager where
  "manager0 =
     \<lparr>plugins = [], button_callback = None, running = False, trace = [], next_panel = 0\<rparr>"

definition two_plugins :: manager where
  "two_plugins = manager0\<lparr>plugins := [wheel_plugin, dash_plugin], button_callback := Some 7\<rparr>"

text \<open>
  Bundles: one that loads, one whose plugin.json holds the JSON number 42, one whose
  \<open>panel_class\<close> names a module attribute that is not a class, one without plugin.json.
\<close>

definition good_bundle :: "string \<Rightarrow> plugin_bundle" where
  "good_bundle name =
     \<lparr>entry = name, dir_path = ''plugins/'' @ name, is_dir = True,
      has_metadata_file = True, has_init_file = True,
      metadata_load =
        Parsed (JObject \<lparr>md_name = Some (NameStr name), md_panel_class = Some (NameStr ''Panel''),
                         md_panel_title = None, md_devices = Some [wheel_rule]\<rparr>),
      module_raises = False, module_attrs = [(''Panel'', PanelSubclass)]\<rparr>"

definition scalar_bundle :: plugin_bundle where
  "scalar_bundle = (good_bundle ''scalar'')\<lparr>metadata_load := Parsed JScalar\<rparr>"

definition not_a_class_bundle :: plugin_bundle where
  "not_a_class_bundle = (good_bundle ''notclass'')\<lparr>module_attrs := [(''Panel'', NotAClass)]\<rparr>"

definition no_metadata_bundle :: plugin_bundle where
  "no_metadata_bundle = (good_bundle ''empty'')\<lparr>has_metadata_file := False\<rparr>"

text \<open>The panel-available events dispatched so far.\<close>

fun available :: "event list \<Rightarrow> (string \<times> panel_ref) list" where
  "available [] = []"
| "available (Dispatch (PanelAvailable name ref) # es) = (name, ref) # available es"
| "available (e # es) = available es"

text \<open>
  A record keeps its panel: the name is the same and a panel instance that was there
  is still there. A manager keeps its panels when every record does, position by
  position.
\<close>

definition panel_kept :: "loaded_plugin \<Rightarrow> loaded_plugin \<Rightarrow> bool" where
  "panel_kept p p' =
     (lp_name p' = lp_name p \<and> (panel_instance p \<noteq> None \<longrightarrow> panel_instance p' = panel_instance p))"

definition panels_kept :: "manager \<Rightarrow> manager \<Rightarrow> bool" where
  "panels_kept m m' = list_all2 panel_kept (plugins m) (plugins m')"

text \<open>The plugin "wheel" with one device and a panel, and a manager that holds it.\<close>

definition wheel_active :: loaded_plugin where
  "wheel_active =
     wheel_plugin\<lparr>panel_instance := Some 0, connected_devices := [device_info_of wheel_dev]\<rparr>"

definition manager1 :: manager where
  "manager1 = manager0\<lparr>plugins := [wheel_active], button_callback := Some 7, next_panel := 1\<rparr>"

text \<open>
  A manager whose second record, "wheel", has a device and a panel, and a manager whose
  second record, "dash", has a device and no panel.
\<close>

definition manager2 :: manager where
  "manager2 =
     manager0\<lparr>plugins := [dash_plugin, wheel_active], button_callback := Some 7, next_panel := 1\<rparr>"

definition dash_waiting :: loaded_plugin where
  "dash_waiting = dash_plugin\<lparr>connected_devices := [device_info_of wheel_dev]\<rparr>"

definition manager3 :: manager where
  "manager3 = manager0\<lparr>plugins := [wheel_plugin, dash_waiting]\<rparr>"

section \<open>Properties of the matcher\<close>

lemma matches_step:
  "vidpid_check r d = Inr a \<Longrightarrow>
   matches search (r # rs) d =
     (if a then Inr True
      else case pattern_check search r d of
             Inl e \<Rightarrow> Inl e
           | Inr b \<Rightarrow> if b then Inr True else matches search rs d)"
  by (cases a) (simp_all split: sum.splits bool.splits)

lemma int_base16_046d: "int_base16 ''0x046d'' = Some 1133"
  by code_simp

lemma int_base16_c295: "int_base16 ''c295'' = Some 49813"
  by code_simp

text \<open>
  C3. A rule that declares a vendor id and a product id (and no name pattern) matches
  a device exactly when both values equal the device's vendor and product ids; in a
  list of rules the device matches through this rule under the same condition, and
  the later rules decide otherwise. Only the numbers the declared values denote
  enter, so an integer and a hexadecimal string that denote the same number are
  interchangeable: the string \<open>0x046d\<close> and the integer 1133 denote 1133.
\<close>

theorem matches_vid_pid:
  assumes "vendor_id r = Some vid" and "product_id r = Some pid"
    and "name_pattern r = None"
    and "id_int vid = Inr v" and "id_int pid = Inr p"
  shows "matches search [r] d = Inr (dev_vendor d = v \<and> dev_product d = p)
       \<and> matches search (r # rs) d =
           (if dev_vendor d = v \<and> dev_product d = p then Inr True else matches search rs d)
       \<and> id_int (StrV ''0x046d'') = Inr 1133 \<and> id_int (IntV 1133) = Inr 1133"
proof -
  have vp: "vidpid_check r d = Inr (dev_vendor d = v \<and> dev_product d = p)"
    using assms by (simp add: vidpid_check_def)
  have pc: "pattern_check search r d = Inr False"
    using assms by (simp add: pattern_check_def)
  show ?thesis
    using matches_step [OF vp] pc int_base16_046d by (simp add: id_int_def)
qed

theorem matches_vid_pid_witness:
  "matches literal_search [wheel_rule] wheel_dev = Inr True
   \<and> matches literal_search [wheel_rule] (wheel_dev\<lparr>dev_product := 1\<rparr>) = Inr False
   \<and> matches literal_search
        [wheel_rule\<lparr>vendor_id := Some (IntV 1133)\<rparr>] wheel_dev = Inr True"
proof -
  have h1: "vendor_id wheel_rule = Some (StrV ''0x046d'')" by (simp add: wheel_rule_def)
  have h2: "product_id wheel_rule = Some (IntV 49813)" by (simp add: wheel_rule_def)
  have h3: "name_pattern wheel_rule = None" by (simp add: wheel_rule_def)
  have h4: "id_int (StrV ''0x046d'') = Inr 1133"
    using int_base16_046d by (simp add: id_int_def)
  have h5: "id_int (IntV 49813) = Inr 49813" by (simp add: id_int_def)
  have h6: "id_int (IntV 1133) = Inr 1133" by (simp add: id_int_def)
  have i1: "vendor_id (wheel_rule\<lparr>vendor_id := Some (IntV 1133)\<rparr>) = Some (IntV 1133)" by simp
  have i2: "product_id (wheel_rule\<lparr>vendor_id := Some (IntV 1133)\<rparr>) = Some (IntV 49813)"
    by (simp add: wheel_rule_def)
  have i3: "name_pattern (wheel_rule\<lparr>vendor_id := Some (IntV 1133)\<rparr>) = None"
    by (simp add: wheel_rule_def)
  show ?thesis
    using matches_vid_pid [OF h1 h2 h3 h4 h5, of literal_search wheel_dev]
      matches_vid_pid [OF h1 h2 h3 h4 h5, of literal_search "wheel_dev\<lparr>dev_product := 1\<rparr>"]
      matches_vid_pid [OF i1 i2 i3 h6 h5, of literal_search wheel_dev]
    by (simp add: wheel_dev_def)
qed

text \<open>
  C4. A rule that declares a name pattern and no VID/PID pair matches a device exactly
  when \<open>re.search\<close> with the flag IGNORECASE finds the pattern in the device name (a
  search, not a full match). A rule that declares both a well-formed VID/PID pair and
  a name pattern matches when the ids are equal, whatever the name is, and otherwise
  exactly when the search finds the pattern: either condition alone is enough. In a
  list of rules the device matches through this rule under the same conditions, an
  exception of the search leaves the matcher, and the later rules decide otherwise.
\<close>

theorem matches_name_pattern:
  assumes "name_pattern r = Some pat"
  shows "(vendor_id r = None \<or> product_id r = None \<longrightarrow>
            matches search [r] d = search pat (dev_name d) [IGNORECASE]
          \<and> matches search (r # rs) d =
              (case search pat (dev_name d) [IGNORECASE] of
                 Inl e \<Rightarrow> Inl e
               | Inr found \<Rightarrow> if found then Inr True else matches search rs d))
       \<and> (\<forall>vid pid v p. vendor_id r = Some vid \<and> product_id r = Some pid
              \<and> id_int vid = Inr v \<and> id_int pid = Inr p \<longrightarrow>
            matches search [r] d =
              (if dev_vendor d = v \<and> dev_product d = p then Inr True
               else search pat (dev_name d) [IGNORECASE])
          \<and> matches search (r # rs) d =
              (if dev_vendor d = v \<and> dev_product d = p then Inr True
               else case search pat (dev_name d) [IGNORECASE] of
                      Inl e \<Rightarrow> Inl e
                    | Inr found \<Rightarrow> if found then Inr True else matches search rs d))"
proof (intro conjI impI allI)
  assume "vendor_id r = None \<or> product_id r = None"
  then have v: "vidpid_check r d = Inr False"
    by (auto simp: vidpid_check_def split: option.splits)
  show "matches search [r] d = search pat (dev_name d) [IGNORECASE]"
    using matches_step [OF v, of search "[]"] assms
    by (simp add: pattern_check_def split: sum.splits)
  show "matches search (r # rs) d =
              (case search pat (dev_name d) [IGNORECASE] of
                 Inl e \<Rightarrow> Inl e
               | Inr found \<Rightarrow> if found then Inr True else matches search rs d)"
    using matches_step [OF v, of search rs] assms
    by (simp add: pattern_check_def)
next
  fix vid pid v p
  assume "vendor_id r = Some vid \<and> product_id r = Some pid
              \<and> id_int vid = Inr v \<and> id_int pid = Inr p"
  then have v: "vidpid_check r d = Inr (dev_vendor d = v \<and> dev_product d = p)"
    by (simp add: vidpid_check_def)
  show "matches search [r] d =
              (if dev_vendor d = v \<and> dev_product d = p then Inr True
               else search pat (dev_name d) [IGNORECASE])"
    using matches_step [OF v, of search "[]"] assms
    by (simp add: pattern_check_def split: sum.splits)
  show "matches search (r # rs) d =
              (if dev_vendor d = v \<and> dev_product d = p then Inr True
               else case search pat (dev_name d) [IGNORECASE] of
                      Inl e \<Rightarrow> Inl e
                    | Inr found \<Rightarrow> if found then Inr True else matches search rs d)"
    using matches_step [OF v, of search rs] assms
    by (simp add: pattern_check_def)
qed

lemma wheel_rule_matches: "matches literal_search [wheel_rule] wheel_dev = Inr True"
  by code_simp

theorem matches_name_pattern_witness:
  "matches literal_search [both_rule\<lparr>vendor_id := None\<rparr>] racing_dev = Inr True
   \<and> matches literal_search [both_rule\<lparr>vendor_id := None\<rparr>] wheel_dev = Inr False
   \<and> matches literal_search [both_rule] racing_dev = Inr True
   \<and> matches literal_search [both_rule] wheel_dev = Inr True
   \<and> matches literal_search [both_rule] (wheel_dev\<lparr>dev_product := 1\<rparr>) = Inr False
   \<and> matches literal_search [both_rule\<lparr>vendor_id := None\<rparr>, wheel_rule] wheel_dev = Inr True
   \<and> matches literal_search [both_rule, wheel_rule] racing_dev = Inr True"
proof -
  have n1: "name_pattern (both_rule\<lparr>vendor_id := None\<rparr>) = Some ''Wheel''"
    by (simp add: both_rule_def)
  have n2: "name_pattern both_rule = Some ''Wheel''" by (simp add: both_rule_def)
  have s1: "literal_search ''Wheel'' ''Racing WHEEL Pro'' [IGNORECASE] = Inr True"
    by code_simp
  have s2: "literal_search ''Wheel'' ''G29 Driving Force'' [IGNORECASE] = Inr False"
    by code_simp
  have ids: "id_int (IntV 1133) = Inr 1133 \<and> id_int (StrV ''c295'') = Inr 49813"
    using int_base16_c295 by (simp add: id_int_def)
  have b: "vendor_id both_rule = Some (IntV 1133) \<and> product_id both_rule = Some (StrV ''c295'')"
    by (simp add: both_rule_def)
  show ?thesis
    using matches_name_pattern [OF n1, where search = literal_search and d = racing_dev
        and rs = "[]"]
      matches_name_pattern [OF n1, where search = literal_search and d = wheel_dev
        and rs = "[wheel_rule]"]
      matches_name_pattern [OF n2, where search = literal_search and d = racing_dev
        and rs = "[wheel_rule]"]
      matches_name_pattern [OF n2, where search = literal_search and d = wheel_dev
        and rs = "[]"]
      matches_name_pattern [OF n2, where search = literal_search
        and d = "wheel_dev\<lparr>dev_product := 1\<rparr>" and rs = "[]"]
      s1 s2 ids b wheel_rule_matches
    by (simp add: racing_dev_def wheel_dev_def)
qed

section \<open>The loader on bundles it does not expect\<close>

text \<open>
  C9. The capability check is \<open>issubclass(panel_class, PluginPanel)\<close>. For a bundle
  whose \<open>panel_class\<close> names a module attribute that is not a class, \<open>issubclass\<close>
  raises TypeError; no handler is around it, so \<open>_load_plugin\<close> raises instead of
  reporting a load error: no event is dispatched and nothing is returned.
\<close>

theorem not_a_class_raises:
  "load_plugin not_a_class_bundle manager0 = (Inl TypeError, manager0)"
  by code_simp

text \<open>
  C5. Three bundles, the second with a plugin.json that holds the JSON number 42:
  \<open>"name" in 42\<close> raises TypeError, which leaves \<open>_load_plugin\<close> and the loop of
  \<open>_discover_plugins\<close>. One record is stored, no load error is reported, and the
  third bundle is never looked at.
\<close>

theorem discovery_aborts_on_scalar_metadata:
  "fst (discover_plugins [good_bundle ''a'', scalar_bundle, good_bundle ''b''] manager0)
     = Some TypeError
   \<and> map lp_name (plugins (snd (discover_plugins
         [good_bundle ''a'', scalar_bundle, good_bundle ''b''] manager0))) = [''a'']
   \<and> load_errors (trace (snd (discover_plugins
         [good_bundle ''a'', scalar_bundle, good_bundle ''b''] manager0))) = []"
  by code_simp

text \<open>
  For comparison, a bundle without plugin.json: the load error names the file, nothing
  is raised, and the two other bundles are loaded.
\<close>

lemma discovery_with_missing_metadata:
  "fst (discover_plugins [good_bundle ''a'', no_metadata_bundle, good_bundle ''b''] manager0)
     = None
   \<and> map lp_name (plugins (snd (discover_plugins
         [good_bundle ''a'', no_metadata_bundle, good_bundle ''b''] manager0))) = [''a'', ''b'']
   \<and> load_errors (trace (snd (discover_plugins
         [good_bundle ''a'', no_metadata_bundle, good_bundle ''b''] manager0)))
       = [(''empty'', ''Missing plugin.json'')]"
  by code_simp

section \<open>Exceptions of plugin code in the disconnect handler\<close>

text \<open>
  C2. The plugin "wheel" gets a device and a panel; then the device disappears. The
  call \<open>plugin.panel_instance.active(-1)\<close> of \<open>_handle_device_disconnected\<close> stands
  outside every \<open>try\<close>, so the exception of the panel leaves the handler.
\<close>

theorem deactivation_exception_propagates:
  "fst (handle_device_disconnected deactivate_fails ''/dev/input/event7''
         (snd (handle_device_connected deactivate_fails literal_search wheel_dev
                (manager0\<lparr>plugins := [wheel_plugin], button_callback := Some 7\<rparr>))))
   = Some PluginError"
  by code_simp

text \<open>
  C7. Two records accept the device, and the connect event adds it to both. On the
  disconnect event the panel of the first record raises in \<open>active(-1)\<close>; the
  exception ends the loop over the records, and the second record keeps the device.
\<close>

theorem disconnect_leaves_device_in_later_record:
  "fst (handle_device_connected deactivate_fails literal_search wheel_dev two_plugins) = None
   \<and> map connected_devices
       (plugins (snd (handle_device_connected deactivate_fails literal_search wheel_dev
                       two_plugins)))
     = [[device_info_of wheel_dev], [device_info_of wheel_dev]]
   \<and> map connected_devices
       (plugins (snd (handle_device_disconnected deactivate_fails ''/dev/input/event7''
          (snd (handle_device_connected deactivate_fails literal_search wheel_dev
                 two_plugins)))))
     = [[], [device_info_of wheel_dev]]"
  by code_simp

subsection \<open>The device sets when no exception leaves the handlers\<close>

text \<open>
  The loop over the records, when no body raises: every record is visited, and a
  function of the record that the body determines is known for the whole list.
\<close>

lemma for_plugins_map:
  assumes "\<And>p m. p \<in> set ps \<Longrightarrow> fst (body p m) = None \<and> f (fst (snd (body p m))) = g p"
  shows "fst (for_plugins body ps m) = None
       \<and> map f (fst (snd (for_plugins body ps m))) = map g ps"
  using assms
proof (induction ps arbitrary: m)
  case Nil
  then show ?case by simp
next
  case (Cons p ps)
  obtain r p' m' where b: "body p m = (r, p', m')" by (cases "body p m") auto
  have r: "r = None" and k: "f p' = g p" using Cons.prems [of p m] b by simp_all
  obtain r2 ps2 m2 where f: "for_plugins body ps m' = (r2, ps2, m2)"
    by (cases "for_plugins body ps m'") auto
  have "fst (for_plugins body ps m') = None
       \<and> map f (fst (snd (for_plugins body ps m'))) = map g ps"
    by (rule Cons.IH) (simp add: Cons.prems)
  then show ?case using b r k f by simp
qed

lemma instantiate_devices:
  "connected_devices (fst (instantiate_plugin_panel w p m)) = connected_devices p"
  by (simp add: instantiate_plugin_panel_def Let_def split: prod.splits bool.splits)

lemma connect_plugin_devices:
  "matches search (rules p) d = Inr b \<Longrightarrow>
   fst (connect_plugin w search d p m) = None
   \<and> connected_devices (fst (snd (connect_plugin w search d p m)))
     = (if b then connected_devices p @ [device_info_of d] else connected_devices p)"
  using instantiate_devices
    [of w "p\<lparr>connected_devices := connected_devices p @ [device_info_of d]\<rparr>" m]
  by (cases b; cases "panel_instance p")
     (auto simp: connect_plugin_def Let_def split: prod.splits)

text \<open>
  A connect event whose matcher raises for no record adds the device to the device
  list of every record that accepts it, and to no other.
\<close>

lemma connect_adds_to_every_match:
  assumes "\<forall>p \<in> set (plugins m). \<exists>b. matches search (rules p) d = Inr b"
  shows "fst (handle_device_connected w search d m) = None
       \<and> map connected_devices (plugins (snd (handle_device_connected w search d m)))
         = map (\<lambda>p. if matches search (rules p) d = Inr True
                     then connected_devices p @ [device_info_of d]
                     else connected_devices p) (plugins m)"
proof -
  have "fst (for_plugins (connect_plugin w search d) (plugins m) m) = None
       \<and> map connected_devices (fst (snd (for_plugins (connect_plugin w search d) (plugins m) m)))
         = map (\<lambda>p. if matches search (rules p) d = Inr True
                     then connected_devices p @ [device_info_of d]
                     else connected_devices p) (plugins m)"
  proof (rule for_plugins_map)
    fix p m'
    assume "p \<in> set (plugins m)"
    then obtain b where b: "matches search (rules p) d = Inr b" using assms by auto
    show "fst (connect_plugin w search d p m') = None \<and>
          connected_devices (fst (snd (connect_plugin w search d p m'))) =
          (if matches search (rules p) d = Inr True
           then connected_devices p @ [device_info_of d] else connected_devices p)"
      using connect_plugin_devices [OF b, of w m'] b by simp
  qed
  then show ?thesis
    by (auto simp: handle_device_connected_def with_plugins_def split: prod.splits)
qed

lemma filter_none_then_all: "filter P xs = [] \<Longrightarrow> filter (\<lambda>x. \<not> P x) xs = xs"
  by (induction xs) (auto split: if_splits)

text \<open>
  The loop over \<open>list(plugin.connected_devices)\<close>: whether or not it is left by an
  exception, the record it leaves has no device of that path, and \<open>list.remove\<close>
  never fails in it.
\<close>

lemma disconnect_devices_result:
  assumes "filter (\<lambda>x. info_path x = path) (connected_devices p)
         = filter (\<lambda>x. info_path x = path) rest"
  shows "connected_devices (fst (snd (disconnect_devices w path rest p m)))
           = filter (\<lambda>x. info_path x \<noteq> path) (connected_devices p)
       \<and> fst (disconnect_devices w path rest p m) \<noteq> Some ValueError
       \<and> ((\<forall>tr. \<not> raises w tr (lp_name p) (Active (- 1))) \<longrightarrow>
            fst (disconnect_devices w path rest p m) = None)"
  using assms
proof (induction rest arbitrary: p m)
  case Nil
  then show ?case by (simp add: filter_none_then_all)
next
  case (Cons di rest)
  let ?cur = "connected_devices p"
  let ?M = "\<lambda>x. info_path x = path"
  show ?case
  proof (cases "info_path di = path")
    case False
    then have inv: "filter ?M ?cur = filter ?M rest" using Cons.prems by simp
    show ?thesis using Cons.IH [OF inv, of m] False by simp
  next
    case True
    then have fm: "filter ?M ?cur = di # filter ?M rest" using Cons.prems by simp
    then have "di \<in> set (filter ?M ?cur)" by simp
    then have mem: "di \<in> set ?cur" by simp
    let ?p1 = "p\<lparr>connected_devices := remove1 di ?cur\<rparr>"
    have inv: "filter ?M (connected_devices ?p1) = filter ?M rest"
      using fm by (simp add: filter_remove1)
    have keep: "filter (\<lambda>x. info_path x \<noteq> path) (connected_devices ?p1)
              = filter (\<lambda>x. info_path x \<noteq> path) ?cur"
      using True by (simp add: filter_remove1)
    have empty: "remove1 di ?cur = [] \<Longrightarrow> filter (\<lambda>x. info_path x \<noteq> path) ?cur = []"
      using keep by simp
    note ih = Cons.IH [OF inv]
    show ?thesis
    proof (cases "panel_instance p")
      case None
      then show ?thesis
        using True mem ih [of m] keep by (simp add: Let_def)
    next
      case (Some ref)
      let ?m1 = "snd (call_panel w (lp_name p) ref (OnDeviceDisconnected di) m)"
      show ?thesis
      proof (cases "remove1 di ?cur = []")
        case False
        then show ?thesis
          using True mem Some ih [of ?m1] keep by (simp add: Let_def)
      next
        case e: True
        obtain r2 m2 where c: "call_panel w (lp_name p) ref (Active (- 1)) ?m1 = (r2, m2)"
          by (cases "call_panel w (lp_name p) ref (Active (- 1)) ?m1") auto
        have r2: "r2 = raises w (trace ?m1) (lp_name p) (Active (- 1))"
          using c by (simp add: call_panel_def)
        show ?thesis
        proof (cases r2)
          case True
          then show ?thesis
            using \<open>info_path di = path\<close> mem Some e c r2 empty by (auto simp: Let_def)
        next
          case False
          then show ?thesis
            using \<open>info_path di = path\<close> mem Some e c ih [of m2] keep by (simp add: Let_def)
        qed
      qed
    qed
  qed
qed

lemma disconnect_plugin_devices:
  "connected_devices (fst (snd (disconnect_plugin w path p m)))
     = filter (\<lambda>x. info_path x \<noteq> path) (connected_devices p)
   \<and> fst (disconnect_plugin w path p m) \<noteq> Some ValueError
   \<and> ((\<forall>tr. \<not> raises w tr (lp_name p) (Active (- 1))) \<longrightarrow>
        fst (disconnect_plugin w path p m) = None)"
  unfolding disconnect_plugin_def by (rule disconnect_devices_result) simp

text \<open>
  A disconnect event, with panels whose \<open>active(-1)\<close> does not raise, removes the
  devices of that path from every record.
\<close>

lemma disconnect_removes_from_every_record:
  assumes "\<forall>tr name. \<not> raises w tr name (Active (- 1))"
  shows "fst (handle_device_disconnected w path m) = None
       \<and> map connected_devices (plugins (snd (handle_device_disconnected w path m)))
         = map (\<lambda>p. filter (\<lambda>x. info_path x \<noteq> path) (connected_devices p)) (plugins m)"
proof -
  have "fst (for_plugins (disconnect_plugin w path) (plugins m) m) = None
       \<and> map connected_devices (fst (snd (for_plugins (disconnect_plugin w path) (plugins m) m)))
         = map (\<lambda>p. filter (\<lambda>x. info_path x \<noteq> path) (connected_devices p)) (plugins m)"
    by (rule for_plugins_map) (use assms disconnect_plugin_devices in auto)
  then show ?thesis
    by (auto simp: handle_device_disconnected_def with_plugins_def split: prod.splits)
qed

section \<open>The monitor loop on enumeration errors\<close>

lemma scan_errors_then_stop:
  "scan_passes w search (map (\<lambda>e. (True, EnumError e)) es @ (False, en) # script) known m
     = (Stopped,
        m\<lparr>trace := trace m @ concat (map (\<lambda>e.
              [Print (''[PluginManager] Error listing devices: '' @ e), Sleep 3]) es)\<rparr>)"
  by (induction es arbitrary: m) (simp_all add: sleep_def print_def)

lemma scan_errors_unfinished:
  "scan_passes w search (map (\<lambda>e. (True, EnumError e)) es) known m
     = (Unfinished,
        m\<lparr>trace := trace m @ concat (map (\<lambda>e.
              [Print (''[PluginManager] Error listing devices: '' @ e), Sleep 3]) es)\<rparr>)"
  by (induction es arbitrary: m) (simp_all add: sleep_def print_def)

text \<open>
  The pass that fails to enumerate and the pass that finds nothing new sleep the same
  three seconds: the backoff is not longer than the polling interval.
\<close>

theorem backoff_not_longer_counterexample:
  "sleeps (trace (snd (device_scan_loop quiet_code literal_search
        [(True, EnumError ''No such device'')] manager0)))
     = [1, 3]
   \<and> sleeps (trace (snd (device_scan_loop quiet_code literal_search [(True, Listed [])] manager0)))
     = [1, 3]
   \<and> \<not> last (sleeps (trace (snd (device_scan_loop quiet_code literal_search
                [(True, Listed [])] manager0))))
        < last (sleeps (trace (snd (device_scan_loop quiet_code literal_search
                [(True, EnumError ''No such device'')] manager0))))"
  by code_simp

text \<open>
  C8. A pass whose enumeration fails prints the error and sleeps 3 seconds, the
  interval of a normal pass, and goes on with the next pass, the known devices
  unchanged: the trace gains the printed line and the sleep, nothing else. Any number
  of failed enumerations in a row leaves the loop running; it stops when the flag is
  found clear.
\<close>

theorem enumeration_error_retries:
  "scan_passes w search ((True, EnumError e) # script) known m
     = scan_passes w search script known
         (m\<lparr>trace := trace m @
              [Print (''[PluginManager] Error listing devices: '' @ e), Sleep 3]\<rparr>)
   \<and> scan_passes w search ((True, Listed []) # script) [] m
     = scan_passes w search script [] (m\<lparr>trace := trace m @ [Sleep 3]\<rparr>)
   \<and> scan_passes w search (map (\<lambda>e. (True, EnumError e)) es @ (False, en) # script) known m
     = (Stopped,
        m\<lparr>trace := trace m @ concat (map (\<lambda>e.
              [Print (''[PluginManager] Error listing devices: '' @ e), Sleep 3]) es)\<rparr>)
   \<and> scan_passes w search (map (\<lambda>e. (True, EnumError e)) es) known m
     = (Unfinished,
        m\<lparr>trace := trace m @ concat (map (\<lambda>e.
              [Print (''[PluginManager] Error listing devices: '' @ e), Sleep 3]) es)\<rparr>)"
  using scan_errors_then_stop scan_errors_unfinished by (simp add: sleep_def print_def)

section \<open>The events of one plugin in the loop over the records\<close>

lemma outcomes_append:
  "outcomes w pre (xs @ ys) = outcomes w pre xs @ outcomes w (pre @ xs) ys"
  by (induction xs arbitrary: pre) simp_all

lemma map_fst_outcomes: "map fst (outcomes w pre xs) = xs"
  by (induction xs arbitrary: pre) simp_all

lemma filter_outcomes_none:
  "\<forall>e \<in> set xs. \<not> concerns name e \<Longrightarrow>
   filter (\<lambda>x. concerns name (fst x)) (outcomes w pre xs) = []"
  by (induction xs arbitrary: pre) simp_all

lemma filter_outcomes_all:
  "\<forall>e \<in> set xs. concerns name e \<Longrightarrow>
   filter (\<lambda>x. concerns name (fst x)) (outcomes w pre xs) = outcomes w pre xs"
  by (induction xs arbitrary: pre) simp_all

lemma outcomes_of_other:
  "\<forall>e \<in> set delta. \<not> concerns name e \<Longrightarrow>
   outcomes_of w name (tr @ delta) = outcomes_of w name tr"
  by (simp add: outcomes_of_def outcomes_append filter_outcomes_none)

lemma outcomes_of_own:
  "\<forall>e \<in> set delta. concerns name e \<Longrightarrow>
   outcomes_of w name (tr @ delta) = outcomes_of w name tr @ outcomes w tr delta"
  by (simp add: outcomes_of_def outcomes_append filter_outcomes_all)

lemma events_of_other:
  "\<forall>e \<in> set delta. \<not> concerns name e \<Longrightarrow> events_of name (tr @ delta) = events_of name tr"
  by (simp add: events_of_def)

lemma events_of_own:
  "\<forall>e \<in> set delta. concerns name e \<Longrightarrow> events_of name (tr @ delta) = events_of name tr @ delta"
  by (simp add: events_of_def)

lemma concerns_one: "concerns n e \<Longrightarrow> concerns n' e \<Longrightarrow> n = n'"
  by (induction n e rule: concerns.induct) simp_all

lemma for_plugins_append:
  "for_plugins body (ps @ qs) m =
     (case for_plugins body ps m of
        (Some e, ps', m') \<Rightarrow> (Some e, ps' @ qs, m')
      | (None, ps', m') \<Rightarrow>
          (case for_plugins body qs m' of (r, qs', m'') \<Rightarrow> (r, ps' @ qs', m'')))"
  by (induction ps arbitrary: m) (auto split: prod.splits option.splits)

lemma for_plugins_reach:
  assumes "\<And>q m0. q \<in> set ps \<Longrightarrow> fst (body q m0) = None"
  shows "fst (for_plugins body ps m) = None"
  using assms
proof (induction ps arbitrary: m)
  case Nil
  then show ?case by simp
next
  case (Cons q ps)
  obtain r q' m' where b: "body q m = (r, q', m')" by (cases "body q m") auto
  have r: "r = None" using Cons.prems [of q m] b by simp
  obtain r2 ps2 m2 where f: "for_plugins body ps m' = (r2, ps2, m2)"
    by (cases "for_plugins body ps m'") auto
  have "fst (for_plugins body ps m') = None" by (rule Cons.IH) (simp add: Cons.prems)
  then show ?case using b r f by simp
qed

lemma for_plugins_frame:
  assumes ok: "\<And>q m0. lp_name (fst (snd (body q m0))) = lp_name q
        \<and> rules (fst (snd (body q m0))) = rules q
        \<and> button_callback (snd (snd (body q m0))) = button_callback m0
        \<and> (\<exists>delta. trace (snd (snd (body q m0))) = trace m0 @ delta
              \<and> (\<forall>e \<in> set delta. concerns (lp_name q) e))"
    and other: "name \<notin> lp_name ` set ps"
  shows "map lp_name (fst (snd (for_plugins body ps m))) = map lp_name ps
       \<and> map rules (fst (snd (for_plugins body ps m))) = map rules ps
       \<and> button_callback (snd (snd (for_plugins body ps m))) = button_callback m
       \<and> (\<exists>delta. trace (snd (snd (for_plugins body ps m))) = trace m @ delta
             \<and> (\<forall>e \<in> set delta. \<not> concerns name e))"
  using other
proof (induction ps arbitrary: m)
  case Nil
  then show ?case by simp
next
  case (Cons q ps)
  obtain r q' m' where b: "body q m = (r, q', m')" by (cases "body q m") auto
  have n: "lp_name q' = lp_name q" and ru: "rules q' = rules q"
    and cb: "button_callback m' = button_callback m"
    using ok [of q m] b by simp_all
  obtain d1 where d1: "trace m' = trace m @ d1" "\<forall>e \<in> set d1. concerns (lp_name q) e"
    using ok [of q m] b by auto
  have ne: "name \<noteq> lp_name q" using Cons.prems by auto
  have d1o: "\<forall>e \<in> set d1. \<not> concerns name e"
    using d1(2) ne concerns_one by blast
  show ?case
  proof (cases r)
    case (Some e)
    then show ?thesis using b n ru cb d1(1) d1o by auto
  next
    case None
    obtain r2 ps2 m2 where f: "for_plugins body ps m' = (r2, ps2, m2)"
      by (cases "for_plugins body ps m'") auto
    have o: "name \<notin> lp_name ` set ps" using Cons.prems by auto
    have ih: "map lp_name ps2 = map lp_name ps \<and> map rules ps2 = map rules ps
        \<and> button_callback m2 = button_callback m'
        \<and> (\<exists>delta. trace m2 = trace m' @ delta \<and> (\<forall>e \<in> set delta. \<not> concerns name e))"
      using Cons.IH [OF o, of m'] f by simp
    then obtain d2 where d2: "trace m2 = trace m' @ d2" "\<forall>e \<in> set d2. \<not> concerns name e"
      by auto
    have t: "trace m2 = trace m @ (d1 @ d2)" using d1(1) d2(1) by simp
    have a: "\<forall>e \<in> set (d1 @ d2). \<not> concerns name e" using d1o d2(2) by auto
    have "\<exists>delta. trace m2 = trace m @ delta \<and> (\<forall>e \<in> set delta. \<not> concerns name e)"
      using t a by blast
    then show ?thesis using b None f ih n ru cb by simp
  qed
qed

text \<open>
  The record at a position that the loop reaches: the loop runs the body on it, in a
  manager that differs from the first one by events of other plugins, and what
  follows adds events of other plugins only.
\<close>

lemma at_record:
  assumes ok: "\<And>q m0. lp_name (fst (snd (body q m0))) = lp_name q
        \<and> rules (fst (snd (body q m0))) = rules q
        \<and> button_callback (snd (snd (body q m0))) = button_callback m0
        \<and> (\<exists>delta. trace (snd (snd (body q m0))) = trace m0 @ delta
              \<and> (\<forall>e \<in> set delta. concerns (lp_name q) e))"
    and pl: "plugins m = ps @ p # qs"
    and dist: "distinct (map lp_name (plugins m))"
    and reach: "\<And>q m0. q \<in> set ps \<Longrightarrow> fst (body q m0) = None"
  shows "\<exists>m1 ps1 qs1 d1 d3.
           button_callback m1 = button_callback m
         \<and> trace m1 = trace m @ d1 \<and> (\<forall>e \<in> set d1. \<not> concerns (lp_name p) e)
         \<and> plugins (snd (with_plugins body m)) = ps1 @ fst (snd (body p m1)) # qs1
         \<and> map lp_name ps1 = map lp_name ps \<and> map rules ps1 = map rules ps
         \<and> map lp_name qs1 = map lp_name qs \<and> map rules qs1 = map rules qs
         \<and> button_callback (snd (with_plugins body m)) = button_callback m
         \<and> trace (snd (with_plugins body m)) = trace (snd (snd (body p m1))) @ d3
         \<and> (\<forall>e \<in> set d3. \<not> concerns (lp_name p) e)"
proof -
  let ?n = "lp_name p"
  have o1: "?n \<notin> lp_name ` set ps" and o3: "?n \<notin> lp_name ` set qs"
    using dist pl by auto
  obtain r1 ps1 m1 where f1: "for_plugins body ps m = (r1, ps1, m1)"
    by (cases "for_plugins body ps m") auto
  have r1: "r1 = None" using for_plugins_reach [of ps body m] reach f1 by simp
  have fr1: "map lp_name ps1 = map lp_name ps \<and> map rules ps1 = map rules ps
        \<and> button_callback m1 = button_callback m
        \<and> (\<exists>delta. trace m1 = trace m @ delta \<and> (\<forall>e \<in> set delta. \<not> concerns ?n e))"
    using for_plugins_frame [of body ?n ps m, OF ok o1] f1 by simp
  then obtain d1 where d1: "trace m1 = trace m @ d1" "\<forall>e \<in> set d1. \<not> concerns ?n e"
    by auto
  obtain r2 p' m2 where b: "body p m1 = (r2, p', m2)" by (cases "body p m1") auto
  have cb2: "button_callback m2 = button_callback m1" using ok [of p m1] b by simp
  show ?thesis
  proof (cases r2)
    case (Some e)
    have w: "with_plugins body m = (Some e, m2\<lparr>plugins := ps1 @ p' # qs\<rparr>)"
      using f1 r1 b Some pl by (simp add: with_plugins_def for_plugins_append)
    have "button_callback m1 = button_callback m
         \<and> trace m1 = trace m @ d1 \<and> (\<forall>e \<in> set d1. \<not> concerns ?n e)
         \<and> plugins (snd (with_plugins body m)) = ps1 @ fst (snd (body p m1)) # qs
         \<and> map lp_name ps1 = map lp_name ps \<and> map rules ps1 = map rules ps
         \<and> map lp_name qs = map lp_name qs \<and> map rules qs = map rules qs
         \<and> button_callback (snd (with_plugins body m)) = button_callback m
         \<and> trace (snd (with_plugins body m)) = trace (snd (snd (body p m1))) @ []
         \<and> (\<forall>e \<in> set []. \<not> concerns ?n e)"
      using w b fr1 d1 cb2 by simp
    then show ?thesis by blast
  next
    case None
    obtain r3 qs1 m3 where f3: "for_plugins body qs m2 = (r3, qs1, m3)"
      by (cases "for_plugins body qs m2") auto
    have fr3: "map lp_name qs1 = map lp_name qs \<and> map rules qs1 = map rules qs
        \<and> button_callback m3 = button_callback m2
        \<and> (\<exists>delta. trace m3 = trace m2 @ delta \<and> (\<forall>e \<in> set delta. \<not> concerns ?n e))"
      using for_plugins_frame [of body ?n qs m2, OF ok o3] f3 by simp
    then obtain d3 where d3: "trace m3 = trace m2 @ d3" "\<forall>e \<in> set d3. \<not> concerns ?n e"
      by auto
    have w: "with_plugins body m = (r3, m3\<lparr>plugins := ps1 @ p' # qs1\<rparr>)"
      using f1 r1 b None f3 pl by (simp add: with_plugins_def for_plugins_append)
    have "button_callback m1 = button_callback m
         \<and> trace m1 = trace m @ d1 \<and> (\<forall>e \<in> set d1. \<not> concerns ?n e)
         \<and> plugins (snd (with_plugins body m)) = ps1 @ fst (snd (body p m1)) # qs1
         \<and> map lp_name ps1 = map lp_name ps \<and> map rules ps1 = map rules ps
         \<and> map lp_name qs1 = map lp_name qs \<and> map rules qs1 = map rules qs
         \<and> button_callback (snd (with_plugins body m)) = button_callback m
         \<and> trace (snd (with_plugins body m)) = trace (snd (snd (body p m1))) @ d3
         \<and> (\<forall>e \<in> set d3. \<not> concerns ?n e)"
      using w b fr1 fr3 d1 d3 cb2 by simp
    then show ?thesis by blast
  qed
qed

section \<open>Creation of a panel\<close>

lemma notify_existing_eq:
  "notify_existing w name ref ds m =
     m\<lparr>trace := trace m @ map (\<lambda>di. PanelCall name ref (OnDeviceConnected di)) ds\<rparr>"
  by (induction ds arbitrary: m) (simp_all add: call_panel_def)

lemma instantiate_eq:
  "instantiate_plugin_panel w p m =
     (if raises w (trace m) (lp_name p) (Construct (title_of p) (button_callback m))
      then (p, m\<lparr>trace := trace m @
                 [PanelCall (lp_name p) (next_panel m) (Construct (title_of p) (button_callback m)),
                  Dispatch (LoadError (lp_name p) ''Failed to instantiate panel: '')]\<rparr>)
      else if raises w
                (trace m @ [PanelCall (lp_name p) (next_panel m)
                              (Construct (title_of p) (button_callback m))])
                (lp_name p) (Active (- 2))
      then (p\<lparr>panel_instance := Some (next_panel m)\<rparr>,
            m\<lparr>trace := trace m @
                 [PanelCall (lp_name p) (next_panel m) (Construct (title_of p) (button_callback m)),
                  PanelCall (lp_name p) (next_panel m) (Active (- 2)),
                  Dispatch (LoadError (lp_name p) ''Failed to instantiate panel: '')],
               next_panel := Suc (next_panel m)\<rparr>)
      else if connected_devices p = []
      then (p\<lparr>panel_instance := Some (next_panel m)\<rparr>,
            m\<lparr>trace := trace m @
                 [PanelCall (lp_name p) (next_panel m) (Construct (title_of p) (button_callback m)),
                  PanelCall (lp_name p) (next_panel m) (Active (- 2)),
                  Dispatch (PanelAvailable (lp_name p) (next_panel m))],
               next_panel := Suc (next_panel m)\<rparr>)
      else (p\<lparr>panel_instance := Some (next_panel m)\<rparr>,
            m\<lparr>trace := trace m @
                 [PanelCall (lp_name p) (next_panel m) (Construct (title_of p) (button_callback m)),
                  PanelCall (lp_name p) (next_panel m) (Active (- 2))]
                 @ map (\<lambda>di. PanelCall (lp_name p) (next_panel m) (OnDeviceConnected di))
                     (connected_devices p)
                 @ [PanelCall (lp_name p) (next_panel m) (Active 1),
                    if raises w
                         (trace m @
                          [PanelCall (lp_name p) (next_panel m)
                             (Construct (title_of p) (button_callback m)),
                           PanelCall (lp_name p) (next_panel m) (Active (- 2))]
                          @ map (\<lambda>di. PanelCall (lp_name p) (next_panel m) (OnDeviceConnected di))
                              (connected_devices p))
                         (lp_name p) (Active 1)
                    then Dispatch (LoadError (lp_name p) ''Failed to instantiate panel: '')
                    else Dispatch (PanelAvailable (lp_name p) (next_panel m))],
               next_panel := Suc (next_panel m)\<rparr>))"
  by (simp add: instantiate_plugin_panel_def call_panel_def notify_existing_eq dispatch_def
      instantiate_failed_def Let_def)

lemma instantiate_ok:
  "lp_name (fst (instantiate_plugin_panel w p m)) = lp_name p
   \<and> rules (fst (instantiate_plugin_panel w p m)) = rules p
   \<and> connected_devices (fst (instantiate_plugin_panel w p m)) = connected_devices p
   \<and> button_callback (snd (instantiate_plugin_panel w p m)) = button_callback m
   \<and> (\<exists>delta. trace (snd (instantiate_plugin_panel w p m)) = trace m @ delta
         \<and> (\<forall>e \<in> set delta. concerns (lp_name p) e))"
  unfolding instantiate_eq by auto


lemma notify_connected_eq:
  "notify_connected w name ref di m =
     m\<lparr>trace := trace m @ PanelCall name ref (OnDeviceConnected di)
            # (if raises w (trace m) name (OnDeviceConnected di) then []
               else [PanelCall name ref (Active 1)])\<rparr>"
  by (simp add: notify_connected_def call_panel_def)

lemma connect_plugin_ok:
  "lp_name (fst (snd (connect_plugin w search d q m0))) = lp_name q
   \<and> rules (fst (snd (connect_plugin w search d q m0))) = rules q
   \<and> button_callback (snd (snd (connect_plugin w search d q m0))) = button_callback m0
   \<and> (\<exists>delta. trace (snd (snd (connect_plugin w search d q m0))) = trace m0 @ delta
         \<and> (\<forall>e \<in> set delta. concerns (lp_name q) e))"
proof (cases "matches search (rules q) d")
  case (Inl e)
  then show ?thesis by (simp add: connect_plugin_def)
next
  case (Inr b)
  show ?thesis
  proof (cases b)
    case False
    then show ?thesis using Inr by (simp add: connect_plugin_def)
  next
    case True
    let ?q1 = "q\<lparr>connected_devices := connected_devices q @ [device_info_of d]\<rparr>"
    show ?thesis
    proof (cases "panel_instance q = None \<and> button_callback m0 \<noteq> None")
      case inst: True
      have c: "connect_plugin w search d q m0 =
          (None, fst (instantiate_plugin_panel w ?q1 m0), snd (instantiate_plugin_panel w ?q1 m0))"
        using Inr True inst by (simp add: connect_plugin_def Let_def split: prod.splits)
      show ?thesis unfolding c using instantiate_ok [of w ?q1 m0] by simp
    next
      case False
      then show ?thesis using Inr True
        by (cases "panel_instance q")
           (auto simp: connect_plugin_def Let_def notify_connected_eq)
    qed
  qed
qed

lemma panels_plugin_ok:
  "lp_name (fst (snd (panels_plugin w q m0))) = lp_name q
   \<and> rules (fst (snd (panels_plugin w q m0))) = rules q
   \<and> button_callback (snd (snd (panels_plugin w q m0))) = button_callback m0
   \<and> (\<exists>delta. trace (snd (snd (panels_plugin w q m0))) = trace m0 @ delta
         \<and> (\<forall>e \<in> set delta. concerns (lp_name q) e))"
proof (cases "connected_devices q \<noteq> [] \<and> panel_instance q = None")
  case True
  then have c: "panels_plugin w q m0 =
      (None, fst (instantiate_plugin_panel w q m0), snd (instantiate_plugin_panel w q m0))"
    by (simp add: panels_plugin_def split: prod.splits)
  show ?thesis unfolding c using instantiate_ok [of w q m0] by simp
next
  case False
  then have "panels_plugin w q m0 = (None, q, m0)" by (auto simp: panels_plugin_def)
  then show ?thesis by simp
qed

lemma disconnect_devices_ok:
  "lp_name (fst (snd (disconnect_devices w path rest q m0))) = lp_name q
   \<and> rules (fst (snd (disconnect_devices w path rest q m0))) = rules q
   \<and> button_callback (snd (snd (disconnect_devices w path rest q m0))) = button_callback m0
   \<and> (\<exists>delta. trace (snd (snd (disconnect_devices w path rest q m0))) = trace m0 @ delta
         \<and> (\<forall>e \<in> set delta. concerns (lp_name q) e))"
proof (induction rest arbitrary: q m0)
  case Nil
  then show ?case by simp
next
  case (Cons di rest)
  show ?case
  proof (cases "info_path di = path \<and> di \<in> set (connected_devices q)")
    case False
    then show ?thesis using Cons.IH [of q m0] by auto
  next
    case True
    let ?q1 = "q\<lparr>connected_devices := remove1 di (connected_devices q)\<rparr>"
    show ?thesis
    proof (cases "panel_instance q")
      case None
      then show ?thesis using True Cons.IH [of ?q1 m0] by (simp add: Let_def)
    next
      case (Some ref)
      let ?e1 = "PanelCall (lp_name q) ref (OnDeviceDisconnected di)"
      let ?e2 = "PanelCall (lp_name q) ref (Active (- 1))"
      let ?m1 = "m0\<lparr>trace := trace m0 @ [?e1]\<rparr>"
      let ?m2 = "m0\<lparr>trace := trace m0 @ [?e1, ?e2]\<rparr>"
      show ?thesis
      proof (cases "remove1 di (connected_devices q) = []")
        case False
        have s: "disconnect_devices w path (di # rest) q m0
               = disconnect_devices w path rest ?q1 ?m1"
          using True Some False by (simp add: Let_def call_panel_def)
        obtain delta where d: "trace (snd (snd (disconnect_devices w path rest ?q1 ?m1)))
              = trace ?m1 @ delta" "\<forall>e \<in> set delta. concerns (lp_name q) e"
          using Cons.IH [of ?q1 ?m1] by auto
        have "trace (snd (snd (disconnect_devices w path rest ?q1 ?m1)))
              = trace m0 @ (?e1 # delta) \<and> (\<forall>e \<in> set (?e1 # delta). concerns (lp_name q) e)"
          using d by simp
        then have "\<exists>delta. trace (snd (snd (disconnect_devices w path rest ?q1 ?m1)))
              = trace m0 @ delta \<and> (\<forall>e \<in> set delta. concerns (lp_name q) e)"
          by blast
        then show ?thesis unfolding s using Cons.IH [of ?q1 ?m1] by simp
      next
        case e: True
        show ?thesis
        proof (cases "raises w (trace ?m1) (lp_name q) (Active (- 1))")
          case r: True
          have s: "disconnect_devices w path (di # rest) q m0 = (Some PluginError, ?q1, ?m2)"
            using True Some e r by (simp add: Let_def call_panel_def)
          have "trace ?m2 = trace m0 @ [?e1, ?e2]
              \<and> (\<forall>e \<in> set [?e1, ?e2]. concerns (lp_name q) e)" by simp
          then have "\<exists>delta. trace ?m2 = trace m0 @ delta
              \<and> (\<forall>e \<in> set delta. concerns (lp_name q) e)" by blast
          then show ?thesis unfolding s by simp
        next
          case r: False
          have s: "disconnect_devices w path (di # rest) q m0
                 = disconnect_devices w path rest ?q1 ?m2"
            using True Some e r by (simp add: Let_def call_panel_def)
          obtain delta where d: "trace (snd (snd (disconnect_devices w path rest ?q1 ?m2)))
                = trace ?m2 @ delta" "\<forall>e \<in> set delta. concerns (lp_name q) e"
            using Cons.IH [of ?q1 ?m2] by auto
          have "trace (snd (snd (disconnect_devices w path rest ?q1 ?m2)))
                = trace m0 @ (?e1 # ?e2 # delta)
              \<and> (\<forall>e \<in> set (?e1 # ?e2 # delta). concerns (lp_name q) e)"
            using d by simp
          then have "\<exists>delta. trace (snd (snd (disconnect_devices w path rest ?q1 ?m2)))
                = trace m0 @ delta \<and> (\<forall>e \<in> set delta. concerns (lp_name q) e)"
            by blast
          then show ?thesis unfolding s using Cons.IH [of ?q1 ?m2] by simp
        qed
      qed
    qed
  qed
qed

lemma disconnect_plugin_ok:
  "lp_name (fst (snd (disconnect_plugin w path q m0))) = lp_name q
   \<and> rules (fst (snd (disconnect_plugin w path q m0))) = rules q
   \<and> button_callback (snd (snd (disconnect_plugin w path q m0))) = button_callback m0
   \<and> (\<exists>delta. trace (snd (snd (disconnect_plugin w path q m0))) = trace m0 @ delta
         \<and> (\<forall>e \<in> set delta. concerns (lp_name q) e))"
  unfolding disconnect_plugin_def by (rule disconnect_devices_ok)

lemma length_outcomes: "length (outcomes w pre xs) = length xs"
  using map_fst_outcomes [of w pre xs] by (metis length_map)

lemma instantiate_outcome:
  assumes ne: "connected_devices p \<noteq> []"
  shows "\<exists>delta. trace (snd (instantiate_plugin_panel w p m)) = trace m @ delta
           \<and> (\<forall>e \<in> set delta. concerns (lp_name p) e)
           \<and> instantiation_outcome p (button_callback m) (next_panel m)
               (outcomes w (trace m) delta) (fst (instantiate_plugin_panel w p m))"
proof -
  let ?n = "lp_name p" and ?ref = "next_panel m"
  let ?c0 = "PanelCall ?n ?ref (Construct (title_of p) (button_callback m))"
  let ?a2 = "PanelCall ?n ?ref (Active (- 2))"
  let ?a1 = "PanelCall ?n ?ref (Active 1)"
  let ?notes = "map (\<lambda>di. PanelCall ?n ?ref (OnDeviceConnected di)) (connected_devices p)"
  let ?err = "Dispatch (LoadError ?n ''Failed to instantiate panel: '')"
  let ?ok = "Dispatch (PanelAvailable ?n ?ref)"
  let ?r0 = "raises w (trace m) ?n (Construct (title_of p) (button_callback m))"
  let ?r1 = "raises w (trace m @ [?c0]) ?n (Active (- 2))"
  let ?r3 = "raises w (trace m @ [?c0, ?a2] @ ?notes) ?n (Active 1)"
  let ?mid = "outcomes w (trace m @ [?c0, ?a2]) ?notes"
  have cn: "\<forall>e \<in> set ?notes. concerns ?n e" by auto
  have lm: "length ?mid = length ?notes" by (rule length_outcomes)
  have mf: "map fst ?mid = ?notes" by (rule map_fst_outcomes)
  show ?thesis
  proof (cases ?r0)
    case True
    let ?delta = "[?c0, ?err]"
    have "trace (snd (instantiate_plugin_panel w p m)) = trace m @ ?delta
        \<and> (\<forall>e \<in> set ?delta. concerns ?n e)
        \<and> instantiation_outcome p (button_callback m) ?ref (outcomes w (trace m) ?delta)
            (fst (instantiate_plugin_panel w p m))"
      using True by (simp add: instantiate_eq instantiation_outcome_def Let_def)
    then show ?thesis by blast
  next
    case r0: False
    show ?thesis
    proof (cases ?r1)
      case True
      let ?delta = "[?c0, ?a2, ?err]"
      have "trace (snd (instantiate_plugin_panel w p m)) = trace m @ ?delta
          \<and> (\<forall>e \<in> set ?delta. concerns ?n e)
          \<and> instantiation_outcome p (button_callback m) ?ref (outcomes w (trace m) ?delta)
              (fst (instantiate_plugin_panel w p m))"
        using r0 True by (simp add: instantiate_eq instantiation_outcome_def Let_def)
      then show ?thesis by blast
    next
      case r1: False
      let ?last = "if ?r3 then ?err else ?ok"
      let ?delta = "[?c0, ?a2] @ ?notes @ [?a1, ?last]"
      have t: "trace (snd (instantiate_plugin_panel w p m)) = trace m @ ?delta"
        and f: "fst (instantiate_plugin_panel w p m) = p\<lparr>panel_instance := Some ?ref\<rparr>"
        using r0 r1 ne by (simp_all add: instantiate_eq)
      have c: "\<forall>e \<in> set ?delta. concerns ?n e" by auto
      have o: "outcomes w (trace m) ?delta
             = [(?c0, False), (?a2, False)] @ ?mid @ [(?a1, ?r3), (?last, False)]"
        using r0 r1 by (simp add: outcomes_append)
      have tk: "take (length ?notes) (drop 2 (outcomes w (trace m) ?delta)) = ?mid"
        unfolding o using lm by simp
      have "instantiation_outcome p (button_callback m) ?ref (outcomes w (trace m) ?delta)
              (p\<lparr>panel_instance := Some ?ref\<rparr>)"
        unfolding instantiation_outcome_def Let_def tk
        unfolding o using mf by (cases ?r3) simp_all
      then show ?thesis using t f c by metis
    qed
  qed
qed

lemma at_record_view:
  assumes ok: "\<And>q m0. lp_name (fst (snd (body q m0))) = lp_name q
        \<and> rules (fst (snd (body q m0))) = rules q
        \<and> button_callback (snd (snd (body q m0))) = button_callback m0
        \<and> (\<exists>delta. trace (snd (snd (body q m0))) = trace m0 @ delta
              \<and> (\<forall>e \<in> set delta. concerns (lp_name q) e))"
    and pl: "plugins m = ps @ p # qs"
    and dist: "distinct (map lp_name (plugins m))"
    and reach: "\<And>q m0. q \<in> set ps \<Longrightarrow> fst (body q m0) = None"
  shows "\<exists>m1 ps1 qs1.
           button_callback m1 = button_callback m
         \<and> plugins (snd (with_plugins body m)) = ps1 @ fst (snd (body p m1)) # qs1
         \<and> plugins (snd (with_plugins body m)) ! length ps = fst (snd (body p m1))
         \<and> map lp_name ps1 = map lp_name ps \<and> map rules ps1 = map rules ps
         \<and> map lp_name qs1 = map lp_name qs
         \<and> (\<forall>delta. trace (snd (snd (body p m1))) = trace m1 @ delta
                \<and> (\<forall>e \<in> set delta. concerns (lp_name p) e) \<longrightarrow>
              outcomes_of w (lp_name p) (trace (snd (with_plugins body m)))
                = outcomes_of w (lp_name p) (trace m) @ outcomes w (trace m1) delta
              \<and> events_of (lp_name p) (trace (snd (with_plugins body m)))
                = events_of (lp_name p) (trace m) @ delta)"
proof -
  let ?n = "lp_name p" and ?m' = "snd (with_plugins body m)"
  obtain m1 ps1 qs1 d1 d3 where
    cb: "button_callback m1 = button_callback m"
    and t1: "trace m1 = trace m @ d1" and o1: "\<forall>e \<in> set d1. \<not> concerns ?n e"
    and ps: "plugins ?m' = ps1 @ fst (snd (body p m1)) # qs1"
    and n1: "map lp_name ps1 = map lp_name ps" and r1: "map rules ps1 = map rules ps"
    and n3: "map lp_name qs1 = map lp_name qs"
    and t3: "trace ?m' = trace (snd (snd (body p m1))) @ d3"
    and o3: "\<forall>e \<in> set d3. \<not> concerns ?n e"
    using at_record [of body m ps p qs, OF ok pl dist reach] by blast
  have "length (map lp_name ps1) = length (map lp_name ps)" using n1 by simp
  then have len: "length ps1 = length ps" by simp
  have nth: "plugins ?m' ! length ps = fst (snd (body p m1))"
    unfolding ps using len by (metis nth_append_length)
  have view: "\<forall>delta. trace (snd (snd (body p m1))) = trace m1 @ delta
                \<and> (\<forall>e \<in> set delta. concerns ?n e) \<longrightarrow>
              outcomes_of w ?n (trace ?m') = outcomes_of w ?n (trace m) @ outcomes w (trace m1) delta
              \<and> events_of ?n (trace ?m') = events_of ?n (trace m) @ delta"
  proof (intro allI impI)
    fix delta
    assume a: "trace (snd (snd (body p m1))) = trace m1 @ delta
                \<and> (\<forall>e \<in> set delta. concerns ?n e)"
    have t: "trace ?m' = ((trace m @ d1) @ delta) @ d3" using t3 a t1 by simp
    have "outcomes_of w ?n (trace ?m') = outcomes_of w ?n ((trace m @ d1) @ delta)"
      unfolding t using o3 by (rule outcomes_of_other)
    also have "\<dots> = outcomes_of w ?n (trace m @ d1) @ outcomes w (trace m @ d1) delta"
      by (rule outcomes_of_own) (use a in simp)
    also have "outcomes_of w ?n (trace m @ d1) = outcomes_of w ?n (trace m)"
      using o1 by (rule outcomes_of_other)
    finally have A: "outcomes_of w ?n (trace ?m')
        = outcomes_of w ?n (trace m) @ outcomes w (trace m1) delta"
      using t1 by simp
    have "events_of ?n (trace ?m') = events_of ?n ((trace m @ d1) @ delta)"
      unfolding t using o3 by (rule events_of_other)
    also have "\<dots> = events_of ?n (trace m @ d1) @ delta"
      by (rule events_of_own) (use a in simp)
    also have "events_of ?n (trace m @ d1) = events_of ?n (trace m)"
      using o1 by (rule events_of_other)
    finally have B: "events_of ?n (trace ?m') = events_of ?n (trace m) @ delta" .
    show "outcomes_of w ?n (trace ?m') = outcomes_of w ?n (trace m) @ outcomes w (trace m1) delta
        \<and> events_of ?n (trace ?m') = events_of ?n (trace m) @ delta"
      using A B by simp
  qed
  show ?thesis using cb ps nth n1 r1 n3 view by blast
qed

lemma connect_plugin_reach:
  "matches search (rules q) d = Inr b \<Longrightarrow> fst (connect_plugin w search d q m0) = None"
  using connect_plugin_devices [of search q d b w m0] by simp

lemma panels_plugin_reach: "fst (panels_plugin w q m0) = None"
  by (simp add: panels_plugin_def split: prod.splits)

text \<open>
  The panel class returns and \<open>active(-2)\<close> raises: the record holds the new panel,
  a load error is dispatched, and "panel available" is not.
\<close>

theorem panel_without_available_counterexample:
  "map panel_instance (plugins (snd (handle_device_connected init_fails literal_search wheel_dev
       (manager0\<lparr>plugins := [wheel_plugin], button_callback := Some 7\<rparr>)))) = [Some 0]
   \<and> available (trace (snd (handle_device_connected init_fails literal_search wheel_dev
       (manager0\<lparr>plugins := [wheel_plugin], button_callback := Some 7\<rparr>)))) = []
   \<and> load_errors (trace (snd (handle_device_connected init_fails literal_search wheel_dev
       (manager0\<lparr>plugins := [wheel_plugin], button_callback := Some 7\<rparr>))))
     = [(''wheel'', ''Failed to instantiate panel: '')]"
  by code_simp

text \<open>
  C1. A record without a panel, anywhere in the dictionary, when the matcher raises
  for no record before it. The connect handler leaves it alone when the device does not
  match; it adds the device and calls no plugin code when no callback is set; with a
  callback it adds the device and instantiates. The get-panels query sets the callback;
  it leaves a record without devices alone and instantiates for a record with devices.
  An instantiation calls the panel class with the title and the callback, then
  \<open>active(-2)\<close>, \<open>on_device_connected\<close> for every device of the record and
  \<open>active(1)\<close>, and dispatches "panel available" once, unless the panel class,
  \<open>active(-2)\<close> or \<open>active(1)\<close> raises: then it stops there and dispatches a load
  error, and "panel available" is not dispatched. An exception of
  \<open>on_device_connected\<close> changes nothing.
\<close>

theorem panel_needs_devices_and_callback:
  assumes pl: "plugins m = ps @ p # qs"
    and dist: "distinct (map lp_name (plugins m))"
    and none: "panel_instance p = None"
    and reach: "\<forall>q \<in> set ps. \<exists>b. matches search (rules q) d = Inr b"
  shows "(matches search (rules p) d = Inr False \<longrightarrow>
            plugins (snd (handle_device_connected w search d m)) ! length ps = p
          \<and> outcomes_of w (lp_name p) (trace (snd (handle_device_connected w search d m)))
            = outcomes_of w (lp_name p) (trace m))
       \<and> (matches search (rules p) d = Inr True \<and> button_callback m = None \<longrightarrow>
            plugins (snd (handle_device_connected w search d m)) ! length ps
            = p\<lparr>connected_devices := connected_devices p @ [device_info_of d]\<rparr>
          \<and> outcomes_of w (lp_name p) (trace (snd (handle_device_connected w search d m)))
            = outcomes_of w (lp_name p) (trace m))
       \<and> (matches search (rules p) d = Inr True \<and> button_callback m = Some cb \<longrightarrow>
            (\<exists>ref new.
               outcomes_of w (lp_name p) (trace (snd (handle_device_connected w search d m)))
                 = outcomes_of w (lp_name p) (trace m) @ new
             \<and> instantiation_outcome
                 (p\<lparr>connected_devices := connected_devices p @ [device_info_of d]\<rparr>)
                 (Some cb) ref new
                 (plugins (snd (handle_device_connected w search d m)) ! length ps)))
       \<and> button_callback (snd (get_plugin_panels w cb m)) = Some cb
       \<and> (connected_devices p = [] \<longrightarrow>
            plugins (snd (get_plugin_panels w cb m)) ! length ps = p
          \<and> outcomes_of w (lp_name p) (trace (snd (get_plugin_panels w cb m)))
            = outcomes_of w (lp_name p) (trace m))
       \<and> (connected_devices p \<noteq> [] \<longrightarrow>
            (\<exists>ref new.
               outcomes_of w (lp_name p) (trace (snd (get_plugin_panels w cb m)))
                 = outcomes_of w (lp_name p) (trace m) @ new
             \<and> instantiation_outcome p (Some cb) ref new
                 (plugins (snd (get_plugin_panels w cb m)) ! length ps)))"
proof -
  let ?n = "lp_name p"
  let ?p1 = "p\<lparr>connected_devices := connected_devices p @ [device_info_of d]\<rparr>"
  let ?mc = "snd (handle_device_connected w search d m)"
  let ?m0 = "m\<lparr>button_callback := Some cb\<rparr>"
  let ?mg = "snd (get_plugin_panels w cb m)"
  have rc: "\<And>q m0. q \<in> set ps \<Longrightarrow> fst (connect_plugin w search d q m0) = None"
    using reach connect_plugin_reach by blast
  obtain m1 where
    cb1: "button_callback m1 = button_callback m"
    and nth1: "plugins ?mc ! length ps = fst (snd (connect_plugin w search d p m1))"
    and view1: "\<forall>delta. trace (snd (snd (connect_plugin w search d p m1))) = trace m1 @ delta
                \<and> (\<forall>e \<in> set delta. concerns ?n e) \<longrightarrow>
              outcomes_of w ?n (trace ?mc) = outcomes_of w ?n (trace m) @ outcomes w (trace m1) delta
              \<and> events_of ?n (trace ?mc) = events_of ?n (trace m) @ delta"
    using at_record_view [of "connect_plugin w search d" m ps p qs w,
        OF connect_plugin_ok pl dist rc]
    unfolding handle_device_connected_def by blast
  have g: "?mg = snd (with_plugins (panels_plugin w) ?m0)"
    by (simp add: get_plugin_panels_def split: prod.splits)
  have pl0: "plugins ?m0 = ps @ p # qs" using pl by simp
  have dist0: "distinct (map lp_name (plugins ?m0))" using dist by simp
  obtain m2 where
    cb2: "button_callback m2 = button_callback ?m0"
    and nth2: "plugins ?mg ! length ps = fst (snd (panels_plugin w p m2))"
    and cbg: "button_callback ?mg = Some cb"
    and view2: "\<forall>delta. trace (snd (snd (panels_plugin w p m2))) = trace m2 @ delta
                \<and> (\<forall>e \<in> set delta. concerns ?n e) \<longrightarrow>
              outcomes_of w ?n (trace ?mg) = outcomes_of w ?n (trace m) @ outcomes w (trace m2) delta
              \<and> events_of ?n (trace ?mg) = events_of ?n (trace m) @ delta"
  proof -
    obtain m2 ps1 qs1 where
      a: "button_callback m2 = button_callback ?m0"
      and b: "plugins (snd (with_plugins (panels_plugin w) ?m0)) ! length ps
            = fst (snd (panels_plugin w p m2))"
      and c: "\<forall>delta. trace (snd (snd (panels_plugin w p m2))) = trace m2 @ delta
                \<and> (\<forall>e \<in> set delta. concerns ?n e) \<longrightarrow>
              outcomes_of w ?n (trace (snd (with_plugins (panels_plugin w) ?m0)))
                = outcomes_of w ?n (trace ?m0) @ outcomes w (trace m2) delta
              \<and> events_of ?n (trace (snd (with_plugins (panels_plugin w) ?m0)))
                = events_of ?n (trace ?m0) @ delta"
      using at_record_view [of "panels_plugin w" ?m0 ps p qs w,
          OF panels_plugin_ok pl0 dist0 panels_plugin_reach]
      by blast
    have k: "button_callback (snd (with_plugins (panels_plugin w) ?m0)) = button_callback ?m0"
      using at_record [of "panels_plugin w" ?m0 ps p qs,
          OF panels_plugin_ok pl0 dist0 panels_plugin_reach]
      by blast
    show ?thesis using that [of m2] a b c k unfolding g by simp
  qed
  have empty: "\<And>tr. outcomes w tr [] = []" by simp
  show ?thesis
  proof (intro conjI impI)
    assume a: "matches search (rules p) d = Inr False"
    then have b: "connect_plugin w search d p m1 = (None, p, m1)"
      by (simp add: connect_plugin_def)
    show "plugins ?mc ! length ps = p" using nth1 b by simp
    show "outcomes_of w ?n (trace ?mc) = outcomes_of w ?n (trace m)"
      using view1 [rule_format, of "[]"] b by simp
  next
    assume a: "matches search (rules p) d = Inr True \<and> button_callback m = None"
    then have b: "connect_plugin w search d p m1 = (None, ?p1, m1)"
      using none cb1 by (simp add: connect_plugin_def Let_def)
    show "plugins ?mc ! length ps = ?p1" using nth1 b by simp
    show "outcomes_of w ?n (trace ?mc) = outcomes_of w ?n (trace m)"
      using view1 [rule_format, of "[]"] b by simp
  next
    assume a: "matches search (rules p) d = Inr True \<and> button_callback m = Some cb"
    then have b: "connect_plugin w search d p m1 =
        (None, fst (instantiate_plugin_panel w ?p1 m1), snd (instantiate_plugin_panel w ?p1 m1))"
      using none cb1 by (simp add: connect_plugin_def Let_def split: prod.splits)
    have ne: "connected_devices ?p1 \<noteq> []" by simp
    obtain delta where
      t: "trace (snd (instantiate_plugin_panel w ?p1 m1)) = trace m1 @ delta"
      and c: "\<forall>e \<in> set delta. concerns (lp_name ?p1) e"
      and o: "instantiation_outcome ?p1 (button_callback m1) (next_panel m1)
               (outcomes w (trace m1) delta) (fst (instantiate_plugin_panel w ?p1 m1))"
      using instantiate_outcome [OF ne, of w m1] by blast
    have v: "outcomes_of w ?n (trace ?mc)
           = outcomes_of w ?n (trace m) @ outcomes w (trace m1) delta"
      using view1 [rule_format, of delta] b t c by simp
    have "instantiation_outcome ?p1 (Some cb) (next_panel m1) (outcomes w (trace m1) delta)
            (plugins ?mc ! length ps)"
      using o nth1 b cb1 a by simp
    then show "\<exists>ref new. outcomes_of w ?n (trace ?mc) = outcomes_of w ?n (trace m) @ new
             \<and> instantiation_outcome ?p1 (Some cb) ref new (plugins ?mc ! length ps)"
      using v by blast
  next
    show "button_callback ?mg = Some cb" by (rule cbg)
  next
    assume a: "connected_devices p = []"
    then have b: "panels_plugin w p m2 = (None, p, m2)" by (simp add: panels_plugin_def)
    show "plugins ?mg ! length ps = p" using nth2 b by simp
    show "outcomes_of w ?n (trace ?mg) = outcomes_of w ?n (trace m)"
      using view2 [rule_format, of "[]"] b by simp
  next
    assume ne: "connected_devices p \<noteq> []"
    then have b: "panels_plugin w p m2 =
        (None, fst (instantiate_plugin_panel w p m2), snd (instantiate_plugin_panel w p m2))"
      using none by (simp add: panels_plugin_def split: prod.splits)
    obtain delta where
      t: "trace (snd (instantiate_plugin_panel w p m2)) = trace m2 @ delta"
      and c: "\<forall>e \<in> set delta. concerns ?n e"
      and o: "instantiation_outcome p (button_callback m2) (next_panel m2)
               (outcomes w (trace m2) delta) (fst (instantiate_plugin_panel w p m2))"
      using instantiate_outcome [OF ne, of w m2] by blast
    have v: "outcomes_of w ?n (trace ?mg)
           = outcomes_of w ?n (trace m) @ outcomes w (trace m2) delta"
      using view2 [rule_format, of delta] b t c by simp
    have "instantiation_outcome p (Some cb) (next_panel m2) (outcomes w (trace m2) delta)
            (plugins ?mg ! length ps)"
      using o nth2 b cb2 by simp
    then show "\<exists>ref new. outcomes_of w ?n (trace ?mg) = outcomes_of w ?n (trace m) @ new
             \<and> instantiation_outcome p (Some cb) ref new (plugins ?mg ! length ps)"
      using v by blast
  qed
qed

lemma wheel_matches: "matches literal_search (rules wheel_plugin) wheel_dev = Inr True"
  by code_simp

lemma dash_matches: "matches literal_search (rules dash_plugin) wheel_dev = Inr True"
  by code_simp

lemma racing_no_match:
  "matches literal_search (rules wheel_plugin) racing_dev = Inr False
   \<and> matches literal_search (rules dash_plugin) racing_dev = Inr False"
  by code_simp

lemma announce_fails_connect:
  "outcomes_of announce_fails ''dash''
     (trace (snd (handle_device_connected announce_fails literal_search wheel_dev two_plugins)))
   = [(PanelCall ''dash'' 1 (Construct ''Dashboard'' (Some 7)), False),
      (PanelCall ''dash'' 1 (Active (- 2)), False),
      (PanelCall ''dash'' 1 (OnDeviceConnected (device_info_of wheel_dev)), True),
      (PanelCall ''dash'' 1 (Active 1), False),
      (Dispatch (PanelAvailable ''dash'' 1), False)]"
  by code_simp

lemma init_fails_panels:
  "outcomes_of init_fails ''dash'' (trace (snd (get_plugin_panels init_fails 7 manager3)))
   = [(PanelCall ''dash'' 0 (Construct ''Dashboard'' (Some 7)), False),
      (PanelCall ''dash'' 0 (Active (- 2)), True),
      (Dispatch (LoadError ''dash'' ''Failed to instantiate panel: ''), False)]"
  by code_simp

theorem panel_needs_devices_and_callback_witness:
  "plugins (snd (handle_device_connected announce_fails literal_search racing_dev two_plugins)) ! 1
     = dash_plugin
   \<and> outcomes_of announce_fails ''dash''
       (trace (snd (handle_device_connected announce_fails literal_search racing_dev two_plugins)))
     = []
   \<and> plugins (snd (handle_device_connected announce_fails literal_search wheel_dev
                    (two_plugins\<lparr>button_callback := None\<rparr>))) ! 1
     = dash_waiting
   \<and> outcomes_of announce_fails ''dash''
       (trace (snd (handle_device_connected announce_fails literal_search wheel_dev
                      (two_plugins\<lparr>button_callback := None\<rparr>))))
     = []
   \<and> (\<exists>ref. instantiation_outcome dash_waiting (Some 7) ref
         [(PanelCall ''dash'' 1 (Construct ''Dashboard'' (Some 7)), False),
          (PanelCall ''dash'' 1 (Active (- 2)), False),
          (PanelCall ''dash'' 1 (OnDeviceConnected (device_info_of wheel_dev)), True),
          (PanelCall ''dash'' 1 (Active 1), False),
          (Dispatch (PanelAvailable ''dash'' 1), False)]
         (plugins (snd (handle_device_connected announce_fails literal_search wheel_dev
                          two_plugins)) ! 1))
   \<and> button_callback (snd (get_plugin_panels announce_fails 7 two_plugins)) = Some 7
   \<and> plugins (snd (get_plugin_panels announce_fails 7 two_plugins)) ! 1 = dash_plugin
   \<and> outcomes_of announce_fails ''dash''
       (trace (snd (get_plugin_panels announce_fails 7 two_plugins))) = []
   \<and> (\<exists>ref. instantiation_outcome dash_waiting (Some 7) ref
         [(PanelCall ''dash'' 0 (Construct ''Dashboard'' (Some 7)), False),
          (PanelCall ''dash'' 0 (Active (- 2)), True),
          (Dispatch (LoadError ''dash'' ''Failed to instantiate panel: ''), False)]
         (plugins (snd (get_plugin_panels init_fails 7 manager3)) ! 1))"
proof -
  have pl: "plugins two_plugins = [wheel_plugin] @ dash_plugin # []"
    by (simp add: two_plugins_def)
  have dist: "distinct (map lp_name (plugins two_plugins))"
    by (simp add: two_plugins_def wheel_plugin_def dash_plugin_def)
  have none: "panel_instance dash_plugin = None" by (simp add: dash_plugin_def)
  have reach_w: "\<forall>q \<in> set [wheel_plugin]. \<exists>b. matches literal_search (rules q) wheel_dev = Inr b"
    using wheel_matches by auto
  have reach_r: "\<forall>q \<in> set [wheel_plugin]. \<exists>b. matches literal_search (rules q) racing_dev = Inr b"
    using racing_no_match by auto
  let ?m0 = "two_plugins\<lparr>button_callback := None\<rparr>"
  have pl0: "plugins ?m0 = [wheel_plugin] @ dash_plugin # []" by (simp add: two_plugins_def)
  have dist0: "distinct (map lp_name (plugins ?m0))" using dist by simp
  have pl3: "plugins manager3 = [wheel_plugin] @ dash_waiting # []" by (simp add: manager3_def)
  have dist3: "distinct (map lp_name (plugins manager3))"
    by (simp add: manager3_def wheel_plugin_def dash_plugin_def dash_waiting_def)
  have none3: "panel_instance dash_waiting = None"
    by (simp add: dash_waiting_def dash_plugin_def)
  have ne3: "connected_devices dash_waiting \<noteq> []" by (simp add: dash_waiting_def)
  have e0: "outcomes_of announce_fails ''dash'' (trace two_plugins) = []"
    "outcomes_of init_fails ''dash'' (trace manager3) = []"
    by (simp_all add: two_plugins_def manager3_def manager0_def outcomes_of_def)
  have cb: "button_callback two_plugins = Some 7" "button_callback ?m0 = None"
    by (simp_all add: two_plugins_def)
  have w: "dash_plugin\<lparr>connected_devices := connected_devices dash_plugin @ [device_info_of wheel_dev]\<rparr>
         = dash_waiting" "lp_name dash_plugin = ''dash''" "lp_name dash_waiting = ''dash''"
     "connected_devices dash_plugin = []"
    by (simp_all add: dash_waiting_def dash_plugin_def)
  show ?thesis
    using panel_needs_devices_and_callback [OF pl dist none reach_r,
        where w = announce_fails and cb = 7]
      panel_needs_devices_and_callback [OF pl0 dist0 none reach_w,
        where w = announce_fails and cb = 7]
      panel_needs_devices_and_callback [OF pl dist none reach_w,
        where w = announce_fails and cb = 7]
      panel_needs_devices_and_callback [OF pl3 dist3 none3 reach_w,
        where w = init_fails and cb = 7]
      racing_no_match dash_matches announce_fails_connect init_fails_panels e0 cb w ne3
    by auto
qed

section \<open>A panel outlives its devices\<close>

lemma disconnect_plugin_reach:
  "\<forall>tr. \<not> raises w tr (lp_name q) (Active (- 1)) \<Longrightarrow>
   fst (disconnect_plugin w path q m0) = None"
  using disconnect_plugin_devices [of w path q m0] by simp

lemma disconnect_last_device:
  assumes "panel_instance p = Some ref" and "connected_devices p = [di]"
    and "info_path di = path"
  shows "fst (snd (disconnect_plugin w path p m)) = p\<lparr>connected_devices := []\<rparr>
       \<and> trace (snd (snd (disconnect_plugin w path p m))) =
           trace m @ [PanelCall (lp_name p) ref (OnDeviceDisconnected di),
                      PanelCall (lp_name p) ref (Active (- 1))]"
  using assms
  by (simp add: disconnect_plugin_def call_panel_def Let_def split: prod.splits bool.splits)

lemma connect_existing_panel:
  assumes "panel_instance p = Some ref" and "matches search (rules p) d = Inr True"
  shows "fst (snd (connect_plugin w search d p m))
           = p\<lparr>connected_devices := connected_devices p @ [device_info_of d]\<rparr>
       \<and> trace (snd (snd (connect_plugin w search d p m))) =
           trace m @ PanelCall (lp_name p) ref (OnDeviceConnected (device_info_of d))
             # (if raises w (trace m) (lp_name p) (OnDeviceConnected (device_info_of d))
                then [] else [PanelCall (lp_name p) ref (Active 1)])"
  using assms by (simp add: connect_plugin_def notify_connected_eq Let_def)

text \<open>
  C6. A record with a panel, anywhere in the dictionary, holds one device, and the
  panels of the records before it do not raise in \<open>active(-1)\<close>. The disconnect
  handler for the path of the device tells the panel \<open>on_device_disconnected\<close> and
  \<open>active(-1)\<close> and leaves the record as it was but for the empty device list: the
  panel instance stays. When the connect handler then gets a device that the record
  accepts (the matcher raising for no record before it), the record holds that device
  and the same panel; the plugin's code is called with \<open>on_device_connected\<close> for that
  device alone, on the same panel, and, unless this call raised, with \<open>active(1)\<close>:
  no panel class is called and no past device is announced again.
\<close>

theorem last_device_disconnect_keeps_panel:
  assumes pl: "plugins m = ps @ p # qs"
    and dist: "distinct (map lp_name (plugins m))"
    and panel: "panel_instance p = Some ref"
    and one: "connected_devices p = [di]" and path: "info_path di = path"
    and quiet: "\<forall>q \<in> set ps. \<forall>tr. \<not> raises w tr (lp_name q) (Active (- 1))"
    and reach: "\<forall>q \<in> set ps. \<exists>b. matches search (rules q) d = Inr b"
    and accepts: "matches search (rules p) d = Inr True"
  shows "plugins (snd (handle_device_disconnected w path m)) ! length ps
           = p\<lparr>connected_devices := []\<rparr>
       \<and> events_of (lp_name p) (trace (snd (handle_device_disconnected w path m)))
           = events_of (lp_name p) (trace m)
             @ [PanelCall (lp_name p) ref (OnDeviceDisconnected di),
                PanelCall (lp_name p) ref (Active (- 1))]
       \<and> plugins (snd (handle_device_connected w search d
                         (snd (handle_device_disconnected w path m)))) ! length ps
           = p\<lparr>connected_devices := [device_info_of d]\<rparr>
       \<and> (\<exists>r r'.
            outcomes_of w (lp_name p)
              (trace (snd (handle_device_connected w search d
                             (snd (handle_device_disconnected w path m)))))
            = outcomes_of w (lp_name p) (trace (snd (handle_device_disconnected w path m)))
              @ (PanelCall (lp_name p) ref (OnDeviceConnected (device_info_of d)), r)
                # (if r then [] else [(PanelCall (lp_name p) ref (Active 1), r')]))"
proof -
  let ?n = "lp_name p"
  let ?p0 = "p\<lparr>connected_devices := []\<rparr>"
  let ?md = "snd (handle_device_disconnected w path m)"
  let ?mc = "snd (handle_device_connected w search d ?md)"
  have rd: "\<And>q m0. q \<in> set ps \<Longrightarrow> fst (disconnect_plugin w path q m0) = None"
    using quiet disconnect_plugin_reach by blast
  obtain m1 ps1 qs1 where
    pls: "plugins ?md = ps1 @ fst (snd (disconnect_plugin w path p m1)) # qs1"
    and nth1: "plugins ?md ! length ps = fst (snd (disconnect_plugin w path p m1))"
    and n1: "map lp_name ps1 = map lp_name ps" and r1: "map rules ps1 = map rules ps"
    and n3: "map lp_name qs1 = map lp_name qs"
    and view1: "\<forall>delta. trace (snd (snd (disconnect_plugin w path p m1))) = trace m1 @ delta
                \<and> (\<forall>e \<in> set delta. concerns ?n e) \<longrightarrow>
              outcomes_of w ?n (trace ?md) = outcomes_of w ?n (trace m) @ outcomes w (trace m1) delta
              \<and> events_of ?n (trace ?md) = events_of ?n (trace m) @ delta"
    using at_record_view [of "disconnect_plugin w path" m ps p qs w,
        OF disconnect_plugin_ok pl dist rd]
    unfolding handle_device_disconnected_def by blast
  have b1: "fst (snd (disconnect_plugin w path p m1)) = ?p0"
    and t1: "trace (snd (snd (disconnect_plugin w path p m1))) =
           trace m1 @ [PanelCall ?n ref (OnDeviceDisconnected di), PanelCall ?n ref (Active (- 1))]"
    using disconnect_last_device [OF panel one path, of w m1] by simp_all
  have A1: "plugins ?md ! length ps = ?p0" using nth1 b1 by simp
  have A2: "events_of ?n (trace ?md) = events_of ?n (trace m)
             @ [PanelCall ?n ref (OnDeviceDisconnected di), PanelCall ?n ref (Active (- 1))]"
    using view1 [rule_format,
        of "[PanelCall ?n ref (OnDeviceDisconnected di), PanelCall ?n ref (Active (- 1))]"] t1
    by simp
  have pl2: "plugins ?md = ps1 @ ?p0 # qs1" using pls b1 by simp
  have "map lp_name (plugins ?md) = map lp_name (plugins m)"
    unfolding pl2 pl using n1 n3 by simp
  then have dist2: "distinct (map lp_name (plugins ?md))" using dist by simp
  have "length (map lp_name ps1) = length (map lp_name ps)" using n1 by simp
  then have len: "length ps1 = length ps" by simp
  have rc: "\<And>q m0. q \<in> set ps1 \<Longrightarrow> fst (connect_plugin w search d q m0) = None"
  proof -
    fix q m0
    assume "q \<in> set ps1"
    then have "rules q \<in> set (map rules ps1)" by simp
    then have "rules q \<in> set (map rules ps)" using r1 by simp
    then obtain q' where "q' \<in> set ps" "rules q' = rules q" by auto
    then obtain b where "matches search (rules q) d = Inr b" using reach by metis
    then show "fst (connect_plugin w search d q m0) = None" by (rule connect_plugin_reach)
  qed
  obtain m2 where
    nth2: "plugins ?mc ! length ps1 = fst (snd (connect_plugin w search d ?p0 m2))"
    and view2: "\<forall>delta. trace (snd (snd (connect_plugin w search d ?p0 m2))) = trace m2 @ delta
                \<and> (\<forall>e \<in> set delta. concerns (lp_name ?p0) e) \<longrightarrow>
              outcomes_of w (lp_name ?p0) (trace ?mc)
                = outcomes_of w (lp_name ?p0) (trace ?md) @ outcomes w (trace m2) delta
              \<and> events_of (lp_name ?p0) (trace ?mc) = events_of (lp_name ?p0) (trace ?md) @ delta"
    using at_record_view [of "connect_plugin w search d" ?md ps1 ?p0 qs1 w,
        OF connect_plugin_ok pl2 dist2 rc]
    unfolding handle_device_connected_def by blast
  have panel0: "panel_instance ?p0 = Some ref" using panel by simp
  have acc0: "matches search (rules ?p0) d = Inr True" using accepts by simp
  let ?e1 = "PanelCall ?n ref (OnDeviceConnected (device_info_of d))"
  let ?e2 = "PanelCall ?n ref (Active 1)"
  let ?r = "raises w (trace m2) ?n (OnDeviceConnected (device_info_of d))"
  let ?r' = "raises w (trace m2 @ [?e1]) ?n (Active 1)"
  let ?delta = "?e1 # (if ?r then [] else [?e2])"
  have b2: "fst (snd (connect_plugin w search d ?p0 m2))
          = p\<lparr>connected_devices := [device_info_of d]\<rparr>"
    and t2: "trace (snd (snd (connect_plugin w search d ?p0 m2))) = trace m2 @ ?delta"
    using connect_existing_panel [OF panel0 acc0, of w m2] by simp_all
  have B1: "plugins ?mc ! length ps = p\<lparr>connected_devices := [device_info_of d]\<rparr>"
    using nth2 b2 len by simp
  have c2: "\<forall>e \<in> set ?delta. concerns (lp_name ?p0) e" by simp
  have "outcomes_of w ?n (trace ?mc)
      = outcomes_of w ?n (trace ?md) @ outcomes w (trace m2) ?delta"
    using view2 [rule_format, of ?delta] t2 c2 by simp
  also have "outcomes w (trace m2) ?delta = (?e1, ?r) # (if ?r then [] else [(?e2, ?r')])"
    by simp
  finally have "outcomes_of w ?n (trace ?mc)
      = outcomes_of w ?n (trace ?md) @ (?e1, ?r) # (if ?r then [] else [(?e2, ?r')])" .
  then have B2: "\<exists>r r'. outcomes_of w ?n (trace ?mc)
      = outcomes_of w ?n (trace ?md) @ (?e1, r) # (if r then [] else [(?e2, r')])"
    by blast
  show ?thesis using A1 A2 B1 B2 by simp
qed

lemma wheel_active_matches: "matches literal_search (rules wheel_active) wheel_dev = Inr True"
  by code_simp

lemma wheel_active_events:
  "outcomes_of quiet_code ''wheel''
     (trace (snd (handle_device_connected quiet_code literal_search wheel_dev
                    (snd (handle_device_disconnected quiet_code ''/dev/input/event7''
                            manager2)))))
   = [(PanelCall ''wheel'' 0 (OnDeviceDisconnected (device_info_of wheel_dev)), False),
      (PanelCall ''wheel'' 0 (Active (- 1)), False),
      (PanelCall ''wheel'' 0 (OnDeviceConnected (device_info_of wheel_dev)), False),
      (PanelCall ''wheel'' 0 (Active 1), False)]"
  by code_simp

theorem last_device_disconnect_keeps_panel_witness:
  "plugins (snd (handle_device_disconnected quiet_code ''/dev/input/event7'' manager2)) ! 1
     = wheel_active\<lparr>connected_devices := []\<rparr>
   \<and> events_of ''wheel''
       (trace (snd (handle_device_disconnected quiet_code ''/dev/input/event7'' manager2)))
     = [PanelCall ''wheel'' 0 (OnDeviceDisconnected (device_info_of wheel_dev)),
        PanelCall ''wheel'' 0 (Active (- 1))]
   \<and> plugins (snd (handle_device_connected quiet_code literal_search wheel_dev
                    (snd (handle_device_disconnected quiet_code ''/dev/input/event7''
                            manager2)))) ! 1
     = wheel_active
   \<and> outcomes_of quiet_code ''wheel''
       (trace (snd (handle_device_connected quiet_code literal_search wheel_dev
                      (snd (handle_device_disconnected quiet_code ''/dev/input/event7''
                              manager2)))))
     = [(PanelCall ''wheel'' 0 (OnDeviceDisconnected (device_info_of wheel_dev)), False),
        (PanelCall ''wheel'' 0 (Active (- 1)), False),
        (PanelCall ''wheel'' 0 (OnDeviceConnected (device_info_of wheel_dev)), False),
        (PanelCall ''wheel'' 0 (Active 1), False)]"
proof -
  have pl: "plugins manager2 = [dash_plugin] @ wheel_active # []" by (simp add: manager2_def)
  have dist: "distinct (map lp_name (plugins manager2))"
    by (simp add: manager2_def wheel_active_def wheel_plugin_def dash_plugin_def)
  have panel: "panel_instance wheel_active = Some 0" by (simp add: wheel_active_def)
  have one: "connected_devices wheel_active = [device_info_of wheel_dev]"
    by (simp add: wheel_active_def)
  have path: "info_path (device_info_of wheel_dev) = ''/dev/input/event7''"
    by (simp add: device_info_of_def wheel_dev_def)
  have quiet: "\<forall>q \<in> set [dash_plugin]. \<forall>tr. \<not> raises quiet_code tr (lp_name q) (Active (- 1))"
    by (simp add: quiet_code_def dash_plugin_def)
  have reach: "\<forall>q \<in> set [dash_plugin]. \<exists>b. matches literal_search (rules q) wheel_dev = Inr b"
    using dash_matches by auto
  have e0: "events_of ''wheel'' (trace manager2) = []"
    by (simp add: manager2_def manager0_def events_of_def)
  have w: "lp_name wheel_active = ''wheel''"
    "wheel_active\<lparr>connected_devices := [device_info_of wheel_dev]\<rparr> = wheel_active"
    by (simp_all add: wheel_active_def wheel_plugin_def)
  show ?thesis
    using last_device_disconnect_keeps_panel [OF pl dist panel one path quiet reach
        wheel_active_matches]
      wheel_active_events e0 w
    by simp
qed

section \<open>A panel instance is never replaced\<close>

lemma panel_kept_refl: "panel_kept p p"
  by (simp add: panel_kept_def)

lemma for_plugins_kept:
  assumes "\<And>p m. panel_kept p (fst (snd (body p m)))"
  shows "list_all2 panel_kept ps (fst (snd (for_plugins body ps m)))"
proof (induction ps arbitrary: m)
  case Nil
  then show ?case by simp
next
  case (Cons p ps)
  obtain r p' m' where b: "body p m = (r, p', m')" by (cases "body p m") auto
  have k: "panel_kept p p'" using assms [of p m] b by simp
  show ?case
  proof (cases r)
    case None
    obtain r2 ps2 m2 where f: "for_plugins body ps m' = (r2, ps2, m2)"
      by (cases "for_plugins body ps m'") auto
    have "list_all2 panel_kept ps ps2" using Cons.IH [of m'] f by simp
    then show ?thesis using b None f k by simp
  next
    case (Some e)
    then show ?thesis using b k by (simp add: list_all2_refl panel_kept_refl)
  qed
qed

lemma with_plugins_kept:
  assumes "\<And>p m. panel_kept p (fst (snd (body p m)))"
  shows "panels_kept m (snd (with_plugins body m))"
  using for_plugins_kept [of body "plugins m" m, OF assms]
  by (auto simp: with_plugins_def panels_kept_def split: prod.splits)

lemma for_plugins_same:
  assumes "\<And>p m. fst (snd (body p m)) = p"
  shows "fst (snd (for_plugins body ps m)) = ps"
proof (induction ps arbitrary: m)
  case Nil
  then show ?case by simp
next
  case (Cons p ps)
  obtain r p' m' where b: "body p m = (r, p', m')" by (cases "body p m") auto
  have k: "p' = p" using assms [of p m] b by simp
  show ?case
  proof (cases r)
    case None
    obtain r2 ps2 m2 where f: "for_plugins body ps m' = (r2, ps2, m2)"
      by (cases "for_plugins body ps m'") auto
    have "ps2 = ps" using Cons.IH [of m'] f by simp
    then show ?thesis using b None f k by simp
  next
    case (Some e)
    then show ?thesis using b k by simp
  qed
qed

lemma instantiate_name: "lp_name (fst (instantiate_plugin_panel w p m)) = lp_name p"
  by (simp add: instantiate_plugin_panel_def Let_def split: prod.splits bool.splits)

lemma connect_plugin_kept: "panel_kept p (fst (snd (connect_plugin w search d p m)))"
proof (cases "matches search (rules p) d")
  case (Inl e)
  then show ?thesis by (simp add: connect_plugin_def panel_kept_def)
next
  case (Inr b)
  show ?thesis
  proof (cases b)
    case False
    then show ?thesis using Inr by (simp add: connect_plugin_def panel_kept_def)
  next
    case True
    show ?thesis
    proof (cases "panel_instance p")
      case None
      then show ?thesis
        using Inr True instantiate_name
          [of w "p\<lparr>connected_devices := connected_devices p @ [device_info_of d]\<rparr>" m]
        by (simp add: connect_plugin_def panel_kept_def Let_def split: prod.splits)
    next
      case (Some ref)
      then show ?thesis
        using Inr True by (simp add: connect_plugin_def panel_kept_def Let_def)
    qed
  qed
qed

lemma disconnect_devices_fields:
  "lp_name (fst (snd (disconnect_devices w path ds p m))) = lp_name p
   \<and> panel_instance (fst (snd (disconnect_devices w path ds p m))) = panel_instance p"
  by (induction ds arbitrary: p m)
     (simp_all add: Let_def split: option.splits prod.splits bool.splits)

lemma disconnect_plugin_kept: "panel_kept p (fst (snd (disconnect_plugin w path p m)))"
  using disconnect_devices_fields [of w path "connected_devices p" p m]
  by (simp add: disconnect_plugin_def panel_kept_def)

lemma panels_plugin_kept: "panel_kept p (fst (snd (panels_plugin w p m)))"
  using instantiate_name [of w p m]
  by (cases "panel_instance p")
     (simp_all add: panels_plugin_def panel_kept_def split: prod.splits)

lemma preset_get_plugins:
  "plugins (snd (get_plugin_preset_settings_loop w device_name ps m)) = plugins m"
  by (induction ps arbitrary: m)
     (simp_all add: call_panel_def split: option.splits bool.splits)

lemma available_names_plugins: "plugins (snd (available_names w ps m)) = plugins m"
  by (induction ps arbitrary: m)
     (simp_all add: call_panel_def split: option.splits bool.splits)

lemma preset_apply_plugins:
  "plugins (case apply_plugin_preset_settings_loop w device_name st ps m of
              Inl r \<Rightarrow> snd r
            | Inr m' \<Rightarrow> m') = plugins m"
  by (induction ps arbitrary: m)
     (simp_all add: call_panel_def split: option.splits bool.splits)

lemma connect_no_new_panel:
  "panel_instance p \<noteq> None \<Longrightarrow>
   next_panel (snd (snd (connect_plugin w search d p m))) = next_panel m"
  by (auto simp: connect_plugin_def notify_connected_def call_panel_def Let_def
      split: sum.splits bool.splits option.splits)

text \<open>
  C10. Connect, disconnect and the get-panels query keep every panel instance that is
  there, whatever plugin code does and also when an exception leaves the operation;
  the preset operations and stop leave the records as they are. A record that has a
  panel gets no new one: the connect handler creates no object for it and the
  get-panels query passes it by.
\<close>

theorem panel_instance_never_replaced:
  "panels_kept m (snd (handle_device_connected w search d m))
   \<and> panels_kept m (snd (handle_device_disconnected w path m))
   \<and> panels_kept m (snd (get_plugin_panels w cb m))
   \<and> plugins (snd (get_plugin_preset_settings w device_name m)) = plugins m
   \<and> plugins (snd (apply_plugin_preset_settings w device_name st m)) = plugins m
   \<and> plugins (snd (stop w m)) = plugins m
   \<and> (panel_instance p \<noteq> None \<longrightarrow>
        next_panel (snd (snd (connect_plugin w search d p m))) = next_panel m
        \<and> panels_plugin w p m = (None, p, m))"
proof (intro conjI impI)
  show "panels_kept m (snd (handle_device_connected w search d m))"
    unfolding handle_device_connected_def by (rule with_plugins_kept) (rule connect_plugin_kept)
  show "panels_kept m (snd (handle_device_disconnected w path m))"
    unfolding handle_device_disconnected_def
    by (rule with_plugins_kept) (rule disconnect_plugin_kept)
  have "panels_kept (m\<lparr>button_callback := Some cb\<rparr>)
          (snd (with_plugins (panels_plugin w) (m\<lparr>button_callback := Some cb\<rparr>)))"
    by (rule with_plugins_kept) (rule panels_plugin_kept)
  then show "panels_kept m (snd (get_plugin_panels w cb m))"
    by (auto simp: get_plugin_panels_def panels_kept_def split: prod.splits)
  show "plugins (snd (get_plugin_preset_settings w device_name m)) = plugins m"
    by (simp add: get_plugin_preset_settings_def preset_get_plugins)
  show "plugins (snd (apply_plugin_preset_settings w device_name st m)) = plugins m"
    using preset_apply_plugins [of w device_name st "plugins m" m]
    by (cases "apply_plugin_preset_settings_loop w device_name st (plugins m) m")
       (simp_all add: apply_plugin_preset_settings_def available_names_plugins)
  have "fst (snd (for_plugins (stop_plugin w) (plugins m) (m\<lparr>running := False\<rparr>))) = plugins m"
    by (rule for_plugins_same) (simp add: stop_plugin_def split: option.splits)
  then show "plugins (snd (stop w m)) = plugins m"
    by (auto simp: stop_def with_plugins_def split: prod.splits)
next
  assume "panel_instance p \<noteq> None"
  then show "next_panel (snd (snd (connect_plugin w search d p m))) = next_panel m"
    by (rule connect_no_new_panel)
next
  assume "panel_instance p \<noteq> None"
  then show "panels_plugin w p m = (None, p, m)"
    by (auto simp: panels_plugin_def)
qed

theorem panel_instance_never_replaced_witness:
  "map panel_instance
     (plugins (snd (handle_device_disconnected deactivate_fails ''/dev/input/event7'' manager1)))
     = [Some 0]
   \<and> map panel_instance
       (plugins (snd (handle_device_connected quiet_code literal_search wheel_dev manager1)))
     = [Some 0]
   \<and> map panel_instance (plugins (snd (get_plugin_panels quiet_code 8 manager1))) = [Some 0]
   \<and> map panel_instance (plugins (snd (stop quiet_code manager1))) = [Some 0]
   \<and> panels_plugin quiet_code wheel_active manager1 = (None, wheel_active, manager1)"
proof -
  have a: "panel_instance wheel_active \<noteq> None" by (simp add: wheel_active_def)
  have p: "plugins manager1 = [wheel_active]" by (simp add: manager1_def)
  have k: "list_all2 panel_kept [wheel_active] ps \<Longrightarrow> map panel_instance ps = [Some 0]" for ps
    by (auto simp: list_all2_Cons1 panel_kept_def wheel_active_def)
  show ?thesis
    using panel_instance_never_replaced [where m = manager1 and w = deactivate_fails
        and path = "''/dev/input/event7''" and p = wheel_active]
      panel_instance_never_replaced [where m = manager1 and w = quiet_code
        and search = literal_search and d = wheel_dev and cb = 8 and p = wheel_active]
      a p k
    by (simp add: panels_kept_def wheel_active_def)
qed

end
